theory Spec2Isabelle
  imports Main
begin

section \<open>JavaScript values used by the server\<close>

text \<open>
  A JavaScript \<^verbatim>\<open>Map\<close> keeps its entries in insertion order, and
  \<^verbatim>\<open>Array.from(m.values()).find(...)\<close> reads them in that order: the maps of
  \<^verbatim>\<open>MemStorage\<close> are association lists. \<^verbatim>\<open>set\<close> on a key that is present
  replaces the value in place, on a new key it appends.
\<close>

type_synonym ('k, 'v) jsmap = "('k \<times> 'v) list"

definition map_get :: "('k, 'v) jsmap \<Rightarrow> 'k \<Rightarrow> 'v option" where
  "map_get m k = map_of m k"

fun map_set :: "('k, 'v) jsmap \<Rightarrow> 'k \<Rightarrow> 'v \<Rightarrow> ('k, 'v) jsmap" where
  "map_set [] k v = [(k, v)]"
| "map_set ((k', v') # m) k v =
     (if k' = k then (k, v) # m else (k', v') # map_set m k v)"

definition map_delete :: "('k, 'v) jsmap \<Rightarrow> 'k \<Rightarrow> ('k, 'v) jsmap" where
  "map_delete m k = filter (\<lambda>kv. fst kv \<noteq> k) m"

definition map_values :: "('k, 'v) jsmap \<Rightarrow> 'v list" where
  "map_values m = map snd m"

text \<open>
  The \<^verbatim>\<open>jsonb\<close> columns (clubs, members, attendees, interested) are read through
  \<^verbatim>\<open>Array.isArray(x) ? x : []\<close>: \<open>None\<close> stands for a value that is not an array.
\<close>

definition as_array :: "'a list option \<Rightarrow> 'a list" where
  "as_array x = (case x of None \<Rightarrow> [] | Some xs \<Rightarrow> xs)"

text \<open>\<^verbatim>\<open>s || null\<close> on an optional string: the empty string is falsy too.\<close>

definition or_null :: "string option \<Rightarrow> string option" where
  "or_null x = (case x of None \<Rightarrow> None | Some s \<Rightarrow> if s = [] then None else Some s)"

text \<open>A field of an object spread \<^verbatim>\<open>{...old, ...updates}\<close>: the update wins where it has the key.\<close>

definition override :: "'a \<Rightarrow> 'a option \<Rightarrow> 'a" where
  "override old new = (case new of None \<Rightarrow> old | Some v \<Rightarrow> v)"

section \<open>The entities of shared/schema.ts\<close>

text \<open>
  Timestamps are numbers (\<^verbatim>\<open>Date.getTime()\<close>). \<open>u_isVerified\<close> is the property the
  verified registration adds through a cast; \<open>None\<close> is an object without it.
\<close>

record user =
  u_id :: string
  u_name :: string
  u_email :: string
  u_password :: string
  u_role :: string
  u_clubs :: "string list option"
  u_avatar :: "string option"
  u_createdAt :: "nat option"
  u_isVerified :: "bool option"

text \<open>\<^verbatim>\<open>Partial<User>\<close>: every key may be absent (\<open>None\<close>).\<close>

record user_updates =
  upd_id :: "string option"
  upd_name :: "string option"
  upd_email :: "string option"
  upd_password :: "string option"
  upd_role :: "string option"
  upd_clubs :: "string list option option"
  upd_avatar :: "string option option"
  upd_createdAt :: "nat option option"
  upd_isVerified :: "bool option"

text \<open>
  \<^verbatim>\<open>InsertUser\<close> as \<^verbatim>\<open>createUser\<close> reads it: its clubs and avatar keys are
  overwritten by \<^verbatim>\<open>createUser\<close> and are left out.
\<close>

record insert_user =
  iu_name :: string
  iu_email :: string
  iu_password :: string
  iu_role :: string
  iu_isVerified :: "bool option"

record club =
  c_id :: string
  c_name :: string
  c_description :: "string option"
  c_category :: string
  c_adminId :: "string option"
  c_members :: "string list option"
  c_createdAt :: "nat option"

record insert_club =
  ic_name :: string
  ic_description :: "string option"
  ic_category :: string
  ic_adminId :: "string option"

record event =
  e_id :: string
  e_title :: string
  e_description :: string
  e_date :: nat
  e_venue :: string
  e_club :: "string option"
  e_type :: string
  e_organizerId :: "string option"
  e_organizerName :: string
  e_image :: "string option"
  e_attendees :: "string list option"
  e_interested :: "string list option"
  e_createdAt :: "nat option"

record event_updates =
  eu_id :: "string option"
  eu_title :: "string option"
  eu_description :: "string option"
  eu_date :: "nat option"
  eu_venue :: "string option"
  eu_club :: "string option option"
  eu_type :: "string option"
  eu_organizerId :: "string option option"
  eu_organizerName :: "string option"
  eu_image :: "string option option"
  eu_attendees :: "string list option option"
  eu_interested :: "string list option option"
  eu_createdAt :: "nat option option"

record insert_event =
  ie_title :: string
  ie_description :: string
  ie_date :: nat
  ie_venue :: string
  ie_club :: "string option"
  ie_type :: "string option"
  ie_organizerId :: "string option"
  ie_organizerName :: string
  ie_image :: "string option"

text \<open>\<^verbatim>\<open>EventWithDetails\<close> as \<^verbatim>\<open>getEvents\<close> builds it: the event and its two counts.\<close>

record event_with_details = event +
  attendeeCount :: nat
  interestedCount :: nat

record notification =
  n_id :: string
  n_userId :: "string option"
  n_title :: string
  n_message :: string
  n_type :: string
  n_read :: bool
  n_eventId :: "string option"
  n_createdAt :: nat

record insert_notification =
  in_userId :: "string option"
  in_title :: string
  in_message :: string
  in_type :: string
  in_eventId :: "string option"

datatype rsvp_type = Attending | Interested

section \<open>MemStorage\<close>

record store =
  users :: "(string, user) jsmap"
  events :: "(string, event) jsmap"
  clubs :: "(string, club) jsmap"
  notifications :: "(string, notification) jsmap"

text \<open>
  \<^verbatim>\<open>initializeDefaultClubs\<close>: one club per default entry, under the identifier
  \<^verbatim>\<open>randomUUID()\<close> returned for it (\<open>ids\<close>, in call order) and the time of the call.
\<close>

definition defaultClubs :: "(string \<times> string \<times> string) list" where
  "defaultClubs =
     [(''Coding Club'', ''Programming and software development'', ''Technical''),
      (''Robotics Club'', ''Robotics and automation projects'', ''Technical''),
      (''Cultural Society'', ''Arts, music, and cultural activities'', ''Cultural''),
      (''Sports Club'', ''Athletic and sports activities'', ''Sports''),
      (''Photography Club'', ''Photography and visual arts'', ''Creative'')]"

definition default_club :: "nat \<Rightarrow> string \<Rightarrow> string \<times> string \<times> string \<Rightarrow> club" where
  "default_club now i d =
     \<lparr>c_id = i, c_name = fst d, c_description = or_null (Some (fst (snd d))),
      c_category = snd (snd d), c_adminId = None, c_members = Some [],
      c_createdAt = Some now\<rparr>"

definition initializeDefaultClubs :: "string list \<Rightarrow> nat \<Rightarrow> (string, club) jsmap" where
  "initializeDefaultClubs ids now =
     fold (\<lambda>(i, d) m. map_set m i (default_club now i d)) (zip ids defaultClubs) []"

definition new_MemStorage :: "string list \<Rightarrow> nat \<Rightarrow> store" where
  "new_MemStorage ids now =
     \<lparr>users = [], events = [], clubs = initializeDefaultClubs ids now, notifications = []\<rparr>"

subsection \<open>Users\<close>

definition getUser :: "store \<Rightarrow> string \<Rightarrow> user option" where
  "getUser st i = map_get (users st) i"

definition getUserByEmail :: "store \<Rightarrow> string \<Rightarrow> user option" where
  "getUserByEmail st email = find (\<lambda>u. u_email u = email) (map_values (users st))"

definition createUser :: "store \<Rightarrow> string \<Rightarrow> nat \<Rightarrow> insert_user \<Rightarrow> store \<times> user" where
  "createUser st i now iu =
     (let u = \<lparr>u_id = i, u_name = iu_name iu, u_email = iu_email iu,
                u_password = iu_password iu, u_role = iu_role iu, u_clubs = Some [],
                u_avatar = None, u_createdAt = Some now, u_isVerified = iu_isVerified iu\<rparr>
      in (st\<lparr>users := map_set (users st) i u\<rparr>, u))"

definition spread_user :: "user \<Rightarrow> user_updates \<Rightarrow> user" where
  "spread_user u p =
     \<lparr>u_id = override (u_id u) (upd_id p),
      u_name = override (u_name u) (upd_name p),
      u_email = override (u_email u) (upd_email p),
      u_password = override (u_password u) (upd_password p),
      u_role = override (u_role u) (upd_role p),
      u_clubs = override (u_clubs u) (upd_clubs p),
      u_avatar = override (u_avatar u) (upd_avatar p),
      u_createdAt = override (u_createdAt u) (upd_createdAt p),
      u_isVerified = (case upd_isVerified p of None \<Rightarrow> u_isVerified u | Some b \<Rightarrow> Some b)\<rparr>"

definition updateUser :: "store \<Rightarrow> string \<Rightarrow> user_updates \<Rightarrow> store \<times> user option" where
  "updateUser st i updates =
     (case map_get (users st) i of
        None \<Rightarrow> (st, None)
      | Some u \<Rightarrow>
          (let updatedUser = spread_user u updates
           in (st\<lparr>users := map_set (users st) i updatedUser\<rparr>, Some updatedUser)))"

text \<open>The object literal \<^verbatim>\<open>{}\<close> and \<^verbatim>\<open>{ clubs: xs }\<close> as update objects.\<close>

definition no_updates :: user_updates where
  "no_updates =
     \<lparr>upd_id = None, upd_name = None, upd_email = None, upd_password = None,
      upd_role = None, upd_clubs = None, upd_avatar = None, upd_createdAt = None,
      upd_isVerified = None\<rparr>"

definition only_clubs :: "string list \<Rightarrow> user_updates" where
  "only_clubs xs = no_updates\<lparr>upd_clubs := Some (Some xs)\<rparr>"

subsection \<open>Events\<close>

definition with_counts :: "event \<Rightarrow> event_with_details" where
  "with_counts e =
     event.extend e
       (event_with_details.fields
          (case e_attendees e of Some xs \<Rightarrow> length xs | None \<Rightarrow> 0)
          (case e_interested e of Some xs \<Rightarrow> length xs | None \<Rightarrow> 0))"

definition getEvents :: "store \<Rightarrow> event_with_details list" where
  "getEvents st = map with_counts (map_values (events st))"

definition getEventById :: "store \<Rightarrow> string \<Rightarrow> event option" where
  "getEventById st i = map_get (events st) i"

definition createEvent :: "store \<Rightarrow> string \<Rightarrow> nat \<Rightarrow> insert_event \<Rightarrow> store \<times> event" where
  "createEvent st i now ie =
     (let e = \<lparr>e_id = i, e_title = ie_title ie, e_description = ie_description ie,
                e_date = ie_date ie, e_venue = ie_venue ie, e_club = ie_club ie,
                e_type = (case or_null (ie_type ie) of None \<Rightarrow> ''college'' | Some t \<Rightarrow> t),
                e_organizerId = ie_organizerId ie, e_organizerName = ie_organizerName ie,
                e_image = or_null (ie_image ie), e_attendees = Some [], e_interested = Some [],
                e_createdAt = Some now\<rparr>
      in (st\<lparr>events := map_set (events st) i e\<rparr>, e))"

definition spread_event :: "event \<Rightarrow> event_updates \<Rightarrow> event" where
  "spread_event e p =
     \<lparr>e_id = override (e_id e) (eu_id p),
      e_title = override (e_title e) (eu_title p),
      e_description = override (e_description e) (eu_description p),
      e_date = override (e_date e) (eu_date p),
      e_venue = override (e_venue e) (eu_venue p),
      e_club = override (e_club e) (eu_club p),
      e_type = override (e_type e) (eu_type p),
      e_organizerId = override (e_organizerId e) (eu_organizerId p),
      e_organizerName = override (e_organizerName e) (eu_organizerName p),
      e_image = override (e_image e) (eu_image p),
      e_attendees = override (e_attendees e) (eu_attendees p),
      e_interested = override (e_interested e) (eu_interested p),
      e_createdAt = override (e_createdAt e) (eu_createdAt p)\<rparr>"

definition updateEvent :: "store \<Rightarrow> string \<Rightarrow> event_updates \<Rightarrow> store \<times> event option" where
  "updateEvent st i updates =
     (case map_get (events st) i of
        None \<Rightarrow> (st, None)
      | Some e \<Rightarrow>
          (let updatedEvent = spread_event e updates
           in (st\<lparr>events := map_set (events st) i updatedEvent\<rparr>, Some updatedEvent)))"

definition deleteEvent :: "store \<Rightarrow> string \<Rightarrow> store \<times> bool" where
  "deleteEvent st i =
     (st\<lparr>events := map_delete (events st) i\<rparr>, map_get (events st) i \<noteq> None)"

definition getEventsByUser :: "store \<Rightarrow> string \<Rightarrow> event list" where
  "getEventsByUser st userId =
     filter (\<lambda>e. e_organizerId e = Some userId) (map_values (events st))"

definition getEventsByClub :: "store \<Rightarrow> string \<Rightarrow> event list" where
  "getEventsByClub st c = filter (\<lambda>e. e_club e = Some c) (map_values (events st))"

subsection \<open>Clubs\<close>

definition getClubs :: "store \<Rightarrow> club list" where
  "getClubs st = map_values (clubs st)"

definition getClubByName :: "store \<Rightarrow> string \<Rightarrow> club option" where
  "getClubByName st name = find (\<lambda>c. c_name c = name) (map_values (clubs st))"

definition createClub :: "store \<Rightarrow> string \<Rightarrow> nat \<Rightarrow> insert_club \<Rightarrow> store \<times> club" where
  "createClub st i now ic =
     (let c = \<lparr>c_id = i, c_name = ic_name ic, c_description = or_null (ic_description ic),
                c_category = ic_category ic, c_adminId = or_null (ic_adminId ic),
                c_members = Some [], c_createdAt = Some now\<rparr>
      in (st\<lparr>clubs := map_set (clubs st) i c\<rparr>, c))"

text \<open>
  \<^verbatim>\<open>joinClub\<close>: \<^verbatim>\<open>push\<close> extends the array the record holds, and the record written
  back carries that array; no other record of the store shares it (every array of the
  store is created by an array literal or by \<^verbatim>\<open>filter\<close>), so the arrays are values here.
\<close>

definition joinClub :: "store \<Rightarrow> string \<Rightarrow> string \<Rightarrow> store \<times> bool" where
  "joinClub st userId clubName =
     (case getUser st userId of
        None \<Rightarrow> (st, False)
      | Some u \<Rightarrow>
          (case getClubByName st clubName of
             None \<Rightarrow> (st, False)
           | Some c \<Rightarrow>
               (let userClubs = as_array (u_clubs u);
                    st1 = (if clubName \<notin> set userClubs
                           then fst (updateUser st userId (only_clubs (userClubs @ [clubName])))
                           else st);
                    clubMembers = as_array (c_members c);
                    st2 = (if userId \<notin> set clubMembers
                           then st1\<lparr>clubs := map_set (clubs st1) (c_id c)
                                     (c\<lparr>c_members := Some (clubMembers @ [userId])\<rparr>)\<rparr>
                           else st1)
                in (st2, True))))"

definition leaveClub :: "store \<Rightarrow> string \<Rightarrow> string \<Rightarrow> store \<times> bool" where
  "leaveClub st userId clubName =
     (case getUser st userId of
        None \<Rightarrow> (st, False)
      | Some u \<Rightarrow>
          (case getClubByName st clubName of
             None \<Rightarrow> (st, False)
           | Some c \<Rightarrow>
               (let userClubs = as_array (u_clubs u);
                    updatedUserClubs = filter (\<lambda>x. x \<noteq> clubName) userClubs;
                    st1 = fst (updateUser st userId (only_clubs updatedUserClubs));
                    clubMembers = as_array (c_members c);
                    updatedClubMembers = filter (\<lambda>m. m \<noteq> userId) clubMembers;
                    st2 = st1\<lparr>clubs := map_set (clubs st1) (c_id c)
                              (c\<lparr>c_members := Some updatedClubMembers\<rparr>)\<rparr>
                in (st2, True))))"

subsection \<open>RSVP\<close>

definition rsvpEvent :: "store \<Rightarrow> string \<Rightarrow> string \<Rightarrow> rsvp_type \<Rightarrow> store \<times> bool" where
  "rsvpEvent st userId eventId ty =
     (case map_get (events st) eventId of
        None \<Rightarrow> (st, False)
      | Some e \<Rightarrow>
          (let attendees = as_array (e_attendees e);
               interested = as_array (e_interested e);
               newAttendees = filter (\<lambda>i. i \<noteq> userId) attendees;
               newInterested = filter (\<lambda>i. i \<noteq> userId) interested;
               updatedEvent =
                 (if ty = Attending
                  then e\<lparr>e_attendees := Some (newAttendees @ [userId]),
                         e_interested := Some newInterested\<rparr>
                  else e\<lparr>e_attendees := Some newAttendees,
                         e_interested := Some (newInterested @ [userId])\<rparr>)
           in (st\<lparr>events := map_set (events st) eventId updatedEvent\<rparr>, True)))"

definition unrsvpEvent :: "store \<Rightarrow> string \<Rightarrow> string \<Rightarrow> store \<times> bool" where
  "unrsvpEvent st userId eventId =
     (case map_get (events st) eventId of
        None \<Rightarrow> (st, False)
      | Some e \<Rightarrow>
          (let attendees = as_array (e_attendees e);
               interested = as_array (e_interested e);
               updatedEvent =
                 e\<lparr>e_attendees := Some (filter (\<lambda>i. i \<noteq> userId) attendees),
                   e_interested := Some (filter (\<lambda>i. i \<noteq> userId) interested)\<rparr>
           in (st\<lparr>events := map_set (events st) eventId updatedEvent\<rparr>, True)))"

subsection \<open>Notifications\<close>

text \<open>Newest first; \<^verbatim>\<open>Array.prototype.sort\<close> is stable, as \<open>sort_key\<close> is.\<close>

definition getNotifications :: "store \<Rightarrow> string \<Rightarrow> notification list" where
  "getNotifications st userId =
     sort_key (\<lambda>n. - int (n_createdAt n))
       (filter (\<lambda>n. n_userId n = Some userId) (map_values (notifications st)))"

definition createNotification ::
  "store \<Rightarrow> string \<Rightarrow> nat \<Rightarrow> insert_notification \<Rightarrow> store \<times> notification" where
  "createNotification st i now ins =
     (let n = \<lparr>n_id = i, n_userId = or_null (in_userId ins), n_title = in_title ins,
                n_message = in_message ins, n_type = in_type ins, n_read = False,
                n_eventId = or_null (in_eventId ins), n_createdAt = now\<rparr>
      in (st\<lparr>notifications := map_set (notifications st) i n\<rparr>, n))"

definition markNotificationRead :: "store \<Rightarrow> string \<Rightarrow> store \<times> bool" where
  "markNotificationRead st i =
     (case map_get (notifications st) i of
        None \<Rightarrow> (st, False)
      | Some n \<Rightarrow>
          (st\<lparr>notifications := map_set (notifications st) i (n\<lparr>n_read := True\<rparr>)\<rparr>, True))"

definition markAllNotificationsRead :: "store \<Rightarrow> string \<Rightarrow> store \<times> bool" where
  "markAllNotificationsRead st userId =
     (let userNotifications = getNotifications st userId
      in (st\<lparr>notifications :=
               fold (\<lambda>n m. map_set m (n_id n) (n\<lparr>n_read := True\<rparr>))
                 userNotifications (notifications st)\<rparr>, True))"

section \<open>Credentials (jsonwebtoken)\<close>

text \<open>
  The server signs two payloads with the same secret: \<^verbatim>\<open>{ userId }\<close> for a
  session (login, 7 days) and \<^verbatim>\<open>{ email }\<close> for the verification link (24 hours).
  A decoded payload is an object that may or may not have either property.
  \<^verbatim>\<open>jwt.verify\<close> returns the payload of a token signed with the given secret and
  not yet expired, and throws otherwise (\<open>None\<close>). Times are in seconds.
\<close>

record claims =
  cl_userId :: "string option"
  cl_email :: "string option"

datatype token = Malformed | Signed claims string nat

definition jwt_sign :: "claims \<Rightarrow> string \<Rightarrow> nat \<Rightarrow> nat \<Rightarrow> token" where
  "jwt_sign payload secret now expiresIn = Signed payload secret (now + expiresIn)"

definition jwt_verify :: "token \<Rightarrow> string \<Rightarrow> nat \<Rightarrow> claims option" where
  "jwt_verify tok secret now =
     (case tok of
        Malformed \<Rightarrow> None
      | Signed payload k ex \<Rightarrow> if k = secret \<and> now < ex then Some payload else None)"

definition session_token :: "string \<Rightarrow> string \<Rightarrow> nat \<Rightarrow> token" where
  "session_token userId secret now =
     jwt_sign \<lparr>cl_userId = Some userId, cl_email = None\<rparr> secret now (7 * 24 * 3600)"

definition verification_token :: "string \<Rightarrow> string \<Rightarrow> nat \<Rightarrow> token" where
  "verification_token email secret now =
     jwt_sign \<lparr>cl_userId = None, cl_email = Some email\<rparr> secret now (24 * 3600)"

section \<open>HTTP replies and the bearer middleware\<close>

datatype 'a reply = Reply nat 'a | Fail nat string

text \<open>
  \<^verbatim>\<open>authenticateToken\<close>. The argument is the second word of the authorization header
  (\<open>None\<close>: no header, or no second word). \<^verbatim>\<open>storage.getUser(decoded.userId)\<close> on a
  payload without \<^verbatim>\<open>userId\<close> reads the users map at \<^verbatim>\<open>undefined\<close>, which is never
  a key: keys are written by \<^verbatim>\<open>createUser\<close> (a UUID) and \<^verbatim>\<open>updateUser\<close> (a key
  already there). \<open>Inr u\<close> is \<^verbatim>\<open>next()\<close> with \<^verbatim>\<open>req.user = u\<close>.
\<close>

definition authenticateToken ::
  "store \<Rightarrow> string \<Rightarrow> nat \<Rightarrow> token option \<Rightarrow> (nat \<times> string) + user" where
  "authenticateToken st secret now tok =
     (case tok of
        None \<Rightarrow> Inl (401, ''Access token required'')
      | Some t \<Rightarrow>
          (case jwt_verify t secret now of
             None \<Rightarrow> Inl (403, ''Invalid token'')
           | Some decoded \<Rightarrow>
               (case (case cl_userId decoded of None \<Rightarrow> None | Some i \<Rightarrow> getUser st i) of
                  None \<Rightarrow> Inl (401, ''Invalid token'')
                | Some u \<Rightarrow> Inr u)))"

section \<open>Live connections\<close>

datatype ready_state = CONNECTING | OPEN | CLOSING | CLOSED

datatype json = JNull | JBool bool | JNum nat | JStr string | JObj "(string \<times> json) list"

text \<open>
  Connections are numbered. \<open>clients\<close> is the map of \<^verbatim>\<open>registerRoutes\<close>; its key is
  what \<^verbatim>\<open>decoded.userId\<close> evaluates to, \<open>None\<close> being \<^verbatim>\<open>undefined\<close>. \<open>sent\<close> lists
  the frames handed to \<^verbatim>\<open>client.send\<close>, oldest first.
\<close>

record ws_state =
  clients :: "(string option, nat) jsmap"
  readyState :: "nat \<Rightarrow> ready_state"
  sent :: "(nat \<times> json) list"

text \<open>
  A frame after \<^verbatim>\<open>JSON.parse\<close>, as \<open>ws_message option\<close>: \<open>None\<close> when parsing or
  reading the frame throws. \<open>m_token = None\<close> is a token that is missing or falsy.
  \<^verbatim>\<open>ws.close()\<close> starts the closing handshake.
\<close>

record ws_message =
  m_type :: "string option"
  m_token :: "token option"

definition ws_close :: "ws_state \<Rightarrow> nat \<Rightarrow> ws_state" where
  "ws_close w conn = w\<lparr>readyState := (readyState w)(conn := CLOSING)\<rparr>"

definition on_message ::
  "ws_state \<Rightarrow> string \<Rightarrow> nat \<Rightarrow> nat \<Rightarrow> ws_message option \<Rightarrow> ws_state" where
  "on_message w secret now conn msg =
     (case msg of
        None \<Rightarrow> w
      | Some data \<Rightarrow>
          (if m_type data = Some ''auth''
           then (case m_token data of
                   None \<Rightarrow> w
                 | Some t \<Rightarrow>
                     (case jwt_verify t secret now of
                        Some decoded \<Rightarrow>
                          w\<lparr>clients := map_set (clients w) (cl_userId decoded) conn\<rparr>
                      | None \<Rightarrow> ws_close w conn))
           else w))"

definition on_close :: "ws_state \<Rightarrow> nat \<Rightarrow> ws_state" where
  "on_close w conn =
     (case find (\<lambda>kc. snd kc = conn) (clients w) of
        None \<Rightarrow> w
      | Some kc \<Rightarrow> w\<lparr>clients := map_delete (clients w) (fst kc)\<rparr>)"

text \<open>The frame \<^verbatim>\<open>{ type: "auth", token }\<close> the client sends once connected.\<close>

definition auth_message :: "token \<Rightarrow> ws_message option" where
  "auth_message t = Some \<lparr>m_type = Some ''auth'', m_token = Some t\<rparr>"

definition notification_frame :: "json \<Rightarrow> json" where
  "notification_frame data = JObj [(''type'', JStr ''notification''), (''data'', data)]"

definition broadcastNotification :: "ws_state \<Rightarrow> string \<Rightarrow> json \<Rightarrow> ws_state" where
  "broadcastNotification w userId notification =
     (case map_get (clients w) (Some userId) of
        None \<Rightarrow> w
      | Some client \<Rightarrow>
          if readyState w client = OPEN
          then w\<lparr>sent := sent w @ [(client, notification_frame notification)]\<rparr>
          else w)"

section \<open>Routes\<close>

subsection \<open>GET /api/auth/verify\<close>

text \<open>
  \<^verbatim>\<open>getUserByEmail(decoded.email)\<close> on a payload without \<^verbatim>\<open>email\<close> compares every
  user's email, a string, with \<^verbatim>\<open>undefined\<close>, and finds none.
\<close>

definition get_auth_verify ::
  "store \<Rightarrow> string \<Rightarrow> nat \<Rightarrow> token option \<Rightarrow> store \<times> string reply" where
  "get_auth_verify st secret now tok =
     (case tok of
        None \<Rightarrow> (st, Fail 400 ''Missing token'')
      | Some t \<Rightarrow>
          (case jwt_verify t secret now of
             None \<Rightarrow> (st, Fail 400 ''Invalid or expired token'')
           | Some decoded \<Rightarrow>
               (case (case cl_email decoded of None \<Rightarrow> None | Some e \<Rightarrow> getUserByEmail st e) of
                  None \<Rightarrow> (st, Fail 400 ''Invalid token'')
                | Some u \<Rightarrow>
                    if u_isVerified u = Some True
                    then (st, Reply 200 ''Account already verified'')
                    else (fst (updateUser st (u_id u) (no_updates\<lparr>upd_isVerified := Some True\<rparr>)),
                          Reply 200 ''Email verified successfully. You can now log in.''))))"

subsection \<open>POST /api/auth/login\<close>

text \<open>
  \<^verbatim>\<open>loginSchema\<close>: the email is a string in email format (\<open>is_email\<close>, zod's check)
  and the password a string of at least one character; \<open>None\<close> as a field of the body is
  a key that is missing or not a string. \<open>loginSchema_parse\<close> gives the parsed pair, or
  \<open>None\<close> when \<^verbatim>\<open>parse\<close> throws. The message of the error thrown is zod's text of the
  issues found in the body; the route sends it back, and it is the argument
  \<open>zod_message\<close> of the route.
\<close>

record login_body =
  lb_email :: "string option"
  lb_password :: "string option"

definition loginSchema_parse ::
  "(string \<Rightarrow> bool) \<Rightarrow> login_body \<Rightarrow> (string \<times> string) option" where
  "loginSchema_parse is_email body =
     (case (lb_email body, lb_password body) of
        (Some e, Some p) \<Rightarrow> if is_email e \<and> 1 \<le> length p then Some (e, p) else None
      | _ \<Rightarrow> None)"

text \<open>\<^verbatim>\<open>const { password: _, ...userWithoutPassword } = user\<close>\<close>

record user_without_password =
  p_id :: string
  p_name :: string
  p_email :: string
  p_role :: string
  p_clubs :: "string list option"
  p_avatar :: "string option"
  p_createdAt :: "nat option"
  p_isVerified :: "bool option"

definition without_password :: "user \<Rightarrow> user_without_password" where
  "without_password u =
     \<lparr>p_id = u_id u, p_name = u_name u, p_email = u_email u, p_role = u_role u,
      p_clubs = u_clubs u, p_avatar = u_avatar u, p_createdAt = u_createdAt u,
      p_isVerified = u_isVerified u\<rparr>"


text \<open>
  The second \<^verbatim>\<open>registerRoutes\<close> of the file (the flow without email verification)
  has the same login without the check of the flag.
\<close>

definition post_auth_login_unverified ::
  "(string \<Rightarrow> bool) \<Rightarrow> (login_body \<Rightarrow> string) \<Rightarrow> (string \<Rightarrow> string \<Rightarrow> bool) \<Rightarrow> store
     \<Rightarrow> string \<Rightarrow> nat \<Rightarrow> login_body \<Rightarrow> (user_without_password \<times> token) reply" where
  "post_auth_login_unverified is_email zod_message bcrypt_compare st secret now body =
     (case loginSchema_parse is_email body of
        None \<Rightarrow> Fail 400 (if zod_message body = [] then ''Login failed'' else zod_message body)
      | Some (email, password) \<Rightarrow>
          (case getUserByEmail st email of
             None \<Rightarrow> Fail 401 ''Invalid credentials''
           | Some u \<Rightarrow>
               if \<not> bcrypt_compare password (u_password u)
               then Fail 401 ''Invalid credentials''
               else Reply 200 (without_password u, session_token (u_id u) secret now)))"

subsection \<open>POST /api/events\<close>

text \<open>
  The handler after \<^verbatim>\<open>authenticateToken\<close>: \<open>req_user\<close> is \<^verbatim>\<open>req.user\<close>, \<open>body\<close> the
  outcome of \<^verbatim>\<open>insertEventSchema.parse(req.body)\<close> (\<open>Inl\<close>: the message of the error
  thrown), \<open>eid\<close> and \<open>nid\<close> the two UUIDs drawn. The result lists the store and socket
  calls the handler made, in program order.
\<close>

datatype call =
    Store_createEvent event
  | Store_createNotification notification
  | Broadcast string json

record world =
  w_store :: store
  w_ws :: ws_state

definition post_events ::
  "world \<Rightarrow> user \<Rightarrow> string + insert_event \<Rightarrow> string \<Rightarrow> string \<Rightarrow> nat
     \<Rightarrow> world \<times> event reply \<times> call list" where
  "post_events w req_user body eid nid now =
     (if u_role req_user \<notin> set [''Organizer'', ''Faculty'']
      then (w, Fail 403 ''Not authorized to create events'', [])
      else (case body of
              Inl msg \<Rightarrow> (w, Fail 400 (if msg = [] then ''Failed to create event'' else msg), [])
            | Inr eventData \<Rightarrow>
                (let (st1, ev) = createEvent (w_store w) eid now
                       (eventData\<lparr>ie_organizerId := Some (u_id req_user),
                                  ie_organizerName := u_name req_user\<rparr>);
                     (st2, n) = createNotification st1 nid now
                       \<lparr>in_userId = Some (u_id req_user), in_title = ''New Event Created'',
                        in_message = e_title ev @ '' has been scheduled'', in_type = ''event'',
                        in_eventId = Some (e_id ev)\<rparr>;
                     pushed = JObj [(''title'', JStr ''New Event Created''),
                                    (''message'', JStr (e_title ev @ '' has been scheduled''))];
                     ws' = broadcastNotification (w_ws w) (u_id req_user) pushed
                 in (\<lparr>w_store = st2, w_ws = ws'\<rparr>, Reply 201 ev,
                     [Store_createEvent ev, Store_createNotification n,
                      Broadcast (u_id req_user) pushed]))))"

text \<open>The object the handler pushes, read off a notification: its title and message.\<close>

definition pushed_data :: "notification \<Rightarrow> json" where
  "pushed_data n = JObj [(''title'', JStr (n_title n)), (''message'', JStr (n_message n))]"

text \<open>The persisted notification as \<^verbatim>\<open>JSON.stringify\<close> writes it.\<close>

definition json_opt :: "string option \<Rightarrow> json" where
  "json_opt x = (case x of None \<Rightarrow> JNull | Some s \<Rightarrow> JStr s)"

definition notification_json :: "notification \<Rightarrow> json" where
  "notification_json n =
     JObj [(''userId'', json_opt (n_userId n)), (''title'', JStr (n_title n)),
           (''message'', JStr (n_message n)), (''type'', JStr (n_type n)),
           (''eventId'', json_opt (n_eventId n)), (''id'', JStr (n_id n)),
           (''read'', JBool (n_read n)), (''createdAt'', JNum (n_createdAt n))]"

subsection \<open>RSVP and notification routes\<close>

definition post_events_rsvp ::
  "store \<Rightarrow> user \<Rightarrow> string \<Rightarrow> string option \<Rightarrow> store \<times> string reply" where
  "post_events_rsvp st req_user i ty =
     (if ty \<notin> set [Some ''attending'', Some ''interested'']
      then (st, Fail 400 ''Invalid RSVP type'')
      else (let (st', success) =
                  rsvpEvent st (u_id req_user) i
                    (if ty = Some ''attending'' then Attending else Interested)
            in if \<not> success then (st', Fail 404 ''Event not found'')
               else (st', Reply 200 ''RSVP updated successfully'')))"

definition delete_events_rsvp :: "store \<Rightarrow> user \<Rightarrow> string \<Rightarrow> store \<times> string reply" where
  "delete_events_rsvp st req_user i =
     (let (st', success) = unrsvpEvent st (u_id req_user) i
      in if \<not> success then (st', Fail 404 ''Event not found'')
         else (st', Reply 200 ''RSVP removed successfully''))"

definition post_notifications_read :: "store \<Rightarrow> user \<Rightarrow> string \<Rightarrow> store \<times> string reply" where
  "post_notifications_read st req_user i =
     (let (st', success) = markNotificationRead st i
      in if \<not> success then (st', Fail 404 ''Notification not found'')
         else (st', Reply 200 ''Notification marked as read''))"

section \<open>Invariants of the store\<close>

text \<open>Every record is stored under its own identifier.\<close>

definition users_keyed :: "store \<Rightarrow> bool" where
  "users_keyed st = (\<forall>ku \<in> set (users st). u_id (snd ku) = fst ku)"

definition clubs_keyed :: "store \<Rightarrow> bool" where
  "clubs_keyed st = (\<forall>kc \<in> set (clubs st). c_id (snd kc) = fst kc)"

text \<open>The membership mirror: a club's name is among a user's clubs iff the user is a member.\<close>

definition mirror :: "store \<Rightarrow> bool" where
  "mirror st =
     (\<forall>u \<in> set (map_values (users st)). \<forall>c \<in> set (map_values (clubs st)).
        (c_name c \<in> set (as_array (u_clubs u))) = (u_id u \<in> set (as_array (c_members c))))"

text \<open>
  What the store keeps besides the mirror: keys are identifiers and occur once (a
  \<^verbatim>\<open>Map\<close> has one entry per key), club names occur once, members are users of the
  store and joined clubs are clubs of the store.
\<close>

definition store_ok :: "store \<Rightarrow> bool" where
  "store_ok st =
     (users_keyed st \<and> clubs_keyed st \<and>
      distinct (map fst (users st)) \<and> distinct (map fst (clubs st)) \<and>
      distinct (map c_name (map_values (clubs st))) \<and>
      (\<forall>c \<in> set (map_values (clubs st)).
          set (as_array (c_members c)) \<subseteq> set (map fst (users st))) \<and>
      (\<forall>u \<in> set (map_values (users st)).
          set (as_array (u_clubs u)) \<subseteq> set (map c_name (map_values (clubs st)))) \<and>
      mirror st)"

text \<open>
  The operations of \<^verbatim>\<open>IStorage\<close> that write, as values, and the store after one of
  them. \<open>op_ok\<close> holds when \<^verbatim>\<open>randomUUID\<close> returned an identifier not yet in use
  for a new user or club, a new club has a name no club has, and the object given to
  \<^verbatim>\<open>updateUser\<close> has neither an \<^verbatim>\<open>id\<close> nor a \<^verbatim>\<open>clubs\<close> key.
\<close>

datatype store_op =
    CreateUser string nat insert_user
  | UpdateUser string user_updates
  | CreateEvent string nat insert_event
  | UpdateEvent string event_updates
  | DeleteEvent string
  | CreateClub string nat insert_club
  | JoinClub string string
  | LeaveClub string string
  | RsvpEvent string string rsvp_type
  | UnrsvpEvent string string
  | CreateNotification string nat insert_notification
  | MarkNotificationRead string
  | MarkAllNotificationsRead string

fun exec_op :: "store \<Rightarrow> store_op \<Rightarrow> store" where
  "exec_op st (CreateUser i now iu) = fst (createUser st i now iu)"
| "exec_op st (UpdateUser i p) = fst (updateUser st i p)"
| "exec_op st (CreateEvent i now ie) = fst (createEvent st i now ie)"
| "exec_op st (UpdateEvent i p) = fst (updateEvent st i p)"
| "exec_op st (DeleteEvent i) = fst (deleteEvent st i)"
| "exec_op st (CreateClub i now ic) = fst (createClub st i now ic)"
| "exec_op st (JoinClub u c) = fst (joinClub st u c)"
| "exec_op st (LeaveClub u c) = fst (leaveClub st u c)"
| "exec_op st (RsvpEvent u e ty) = fst (rsvpEvent st u e ty)"
| "exec_op st (UnrsvpEvent u e) = fst (unrsvpEvent st u e)"
| "exec_op st (CreateNotification i now ins) = fst (createNotification st i now ins)"
| "exec_op st (MarkNotificationRead i) = fst (markNotificationRead st i)"
| "exec_op st (MarkAllNotificationsRead u) = fst (markAllNotificationsRead st u)"

fun op_ok :: "store \<Rightarrow> store_op \<Rightarrow> bool" where
  "op_ok st (CreateUser i now iu) = (i \<notin> set (map fst (users st)))"
| "op_ok st (UpdateUser i p) = (upd_id p = None \<and> upd_clubs p = None)"
| "op_ok st (CreateClub i now ic) =
     (i \<notin> set (map fst (clubs st)) \<and> ic_name ic \<notin> set (map c_name (map_values (clubs st))))"
| "op_ok st other = True"

section \<open>A small store\<close>

definition alice :: user where
  "alice =
     \<lparr>u_id = ''u1'', u_name = ''Alice'', u_email = ''alice@srec.ac.in'', u_password = ''h1'',
      u_role = ''Organizer'', u_clubs = Some [], u_avatar = None, u_createdAt = Some 1,
      u_isVerified = Some True\<rparr>"

definition bob :: user where
  "bob =
     \<lparr>u_id = ''u2'', u_name = ''Bob'', u_email = ''bob@srec.ac.in'', u_password = ''h2'',
      u_role = ''Student'', u_clubs = Some [], u_avatar = None, u_createdAt = Some 2,
      u_isVerified = Some False\<rparr>"

definition fest :: event where
  "fest =
     \<lparr>e_id = ''e1'', e_title = ''Fest'', e_description = ''Annual fest'', e_date = 100,
      e_venue = ''Main hall'', e_club = None, e_type = ''college'', e_organizerId = Some ''u1'',
      e_organizerName = ''Alice'', e_image = None, e_attendees = Some [''u1''],
      e_interested = Some [''u2''], e_createdAt = Some 3\<rparr>"

definition greeting :: notification where
  "greeting =
     \<lparr>n_id = ''n1'', n_userId = Some ''u2'', n_title = ''Welcome'', n_message = ''Hello Bob'',
      n_type = ''general'', n_read = False, n_eventId = None, n_createdAt = 4\<rparr>"

definition campus :: store where
  "campus =
     \<lparr>users = [(''u1'', alice), (''u2'', bob)], events = [(''e1'', fest)],
      clubs = initializeDefaultClubs [''c1'', ''c2'', ''c3'', ''c4'', ''c5''] 0,
      notifications = [(''n1'', greeting)]\<rparr>"

definition idle_sockets :: ws_state where
  "idle_sockets = \<lparr>clients = [], readyState = (\<lambda>c. OPEN), sent = []\<rparr>"

definition talk :: insert_event where
  "talk =
     \<lparr>ie_title = ''Talk'', ie_description = ''Guest talk'', ie_date = 200, ie_venue = ''Room 1'',
      ie_club = None, ie_type = Some ''college'', ie_organizerId = None, ie_organizerName = '''',
      ie_image = None\<rparr>"

definition alice_online :: world where
  "alice_online =
     \<lparr>w_store = campus,
      w_ws = \<lparr>clients = [(Some ''u1'', 7)], readyState = (\<lambda>c. OPEN), sent = []\<rparr>\<rparr>"

text \<open>
  An email check and a password comparison to run the login on the small store: the
  stored hash of a password is the letter h before it.
\<close>

definition has_at :: "string \<Rightarrow> bool" where
  "has_at e = (CHR ''@'' \<in> set e)"

definition plain_compare :: "string \<Rightarrow> string \<Rightarrow> bool" where
  "plain_compare password hash = (hash = ''h'' @ password)"

section \<open>Store lemmas\<close>

lemma map_get_map_set_same: "map_get (map_set m k v) k = Some v"
  by (induction m) (auto simp: map_get_def)

lemma map_get_map_set_other: "k' \<noteq> k \<Longrightarrow> map_get (map_set m k v) k' = map_get m k'"
  by (induction m) (auto simp: map_get_def)

lemma map_set_same_value: "map_get m k = Some v \<Longrightarrow> map_set m k v = m"
  by (induction m) (auto simp: map_get_def split: if_splits)

lemma find_map_set:
  "find P (map_values m) = Some v \<Longrightarrow> \<forall>kx \<in> set m. key (snd kx) = fst kx \<Longrightarrow> P v' \<Longrightarrow>
   find P (map_values (map_set m (key v) v')) = Some v'"
  by (induction m) (auto simp: map_values_def split: if_splits)

lemma set_map_set_subset: "set (map_set m k v) \<subseteq> insert (k, v) (set m)"
  by (induction m) (auto split: if_splits)

lemma keyed_map_set:
  assumes "\<forall>kx \<in> set m. key (snd kx) = fst kx" and "key v = k"
  shows "\<forall>kx \<in> set (map_set m k v). key (snd kx) = fst kx"
proof
  fix kx assume "kx \<in> set (map_set m k v)"
  then have "kx = (k, v) \<or> kx \<in> set m" using set_map_set_subset[of m k v] by auto
  then show "key (snd kx) = fst kx" using assms by auto
qed

lemma spread_only_clubs: "spread_user u (only_clubs xs) = u\<lparr>u_clubs := Some xs\<rparr>"
  by (simp add: spread_user_def only_clubs_def no_updates_def override_def)

lemma joinClub_missing:
  "(snd (joinClub st u c) = False) = (getUser st u = None \<or> getClubByName st c = None)"
  by (simp add: joinClub_def Let_def split: option.splits)

lemma joinClub_state:
  assumes "getUser st u = Some usr" "getClubByName st c = Some cl"
  shows "fst (joinClub st u c) =
     st\<lparr>users := (if c \<in> set (as_array (u_clubs usr)) then users st
                   else map_set (users st) u (usr\<lparr>u_clubs := Some (as_array (u_clubs usr) @ [c])\<rparr>)),
        clubs := (if u \<in> set (as_array (c_members cl)) then clubs st
                   else map_set (clubs st) (c_id cl) (cl\<lparr>c_members := Some (as_array (c_members cl) @ [u])\<rparr>))\<rparr>"
  using assms
  by (simp add: joinClub_def Let_def updateUser_def getUser_def spread_only_clubs)

lemma leaveClub_state:
  assumes "getUser st u = Some usr" "getClubByName st c = Some cl"
  shows "fst (leaveClub st u c) =
     st\<lparr>users := map_set (users st) u (usr\<lparr>u_clubs := Some (filter (\<lambda>x. x \<noteq> c) (as_array (u_clubs usr)))\<rparr>),
        clubs := map_set (clubs st) (c_id cl) (cl\<lparr>c_members := Some (filter (\<lambda>m. m \<noteq> u) (as_array (c_members cl)))\<rparr>)\<rparr>"
  using assms
  by (simp add: leaveClub_def Let_def updateUser_def getUser_def spread_only_clubs)

lemma find_name: "find P xs = Some x \<Longrightarrow> P x"
  by (induction xs) (auto split: if_splits)

lemma joinClub_reads_exact:
  assumes k: "clubs_keyed st" and gu: "getUser st u = Some usr" and gc: "getClubByName st c = Some cl"
  shows "getUser (fst (joinClub st u c)) u =
           Some (if c \<in> set (as_array (u_clubs usr)) then usr
                 else usr\<lparr>u_clubs := Some (as_array (u_clubs usr) @ [c])\<rparr>) \<and>
         getClubByName (fst (joinClub st u c)) c =
           Some (if u \<in> set (as_array (c_members cl)) then cl
                 else cl\<lparr>c_members := Some (as_array (c_members cl) @ [u])\<rparr>)"
proof -
  have nm: "c_name cl = c" using find_name[OF gc[unfolded getClubByName_def]] .
  have kk: "\<forall>kx \<in> set (clubs st). c_id (snd kx) = fst kx" using k by (simp add: clubs_keyed_def)
  have f: "\<And>cl'. c_name cl' = c \<Longrightarrow> find (\<lambda>x. c_name x = c) (map_values (map_set (clubs st) (c_id cl) cl')) = Some cl'"
    using find_map_set[OF gc[unfolded getClubByName_def] kk] by simp
  show ?thesis
    unfolding joinClub_state[OF gu gc]
    using gu gc nm
    by (auto simp: getUser_def getClubByName_def map_get_map_set_same f)
qed

lemma leaveClub_reads_exact:
  assumes k: "clubs_keyed st" and gu: "getUser st u = Some usr" and gc: "getClubByName st c = Some cl"
  shows "getUser (fst (leaveClub st u c)) u =
           Some (usr\<lparr>u_clubs := Some (filter (\<lambda>x. x \<noteq> c) (as_array (u_clubs usr)))\<rparr>) \<and>
         getClubByName (fst (leaveClub st u c)) c =
           Some (cl\<lparr>c_members := Some (filter (\<lambda>m. m \<noteq> u) (as_array (c_members cl)))\<rparr>)"
proof -
  have nm: "c_name cl = c" using find_name[OF gc[unfolded getClubByName_def]] .
  have kk: "\<forall>kx \<in> set (clubs st). c_id (snd kx) = fst kx" using k by (simp add: clubs_keyed_def)
  have f: "\<And>cl'. c_name cl' = c \<Longrightarrow> find (\<lambda>x. c_name x = c) (map_values (map_set (clubs st) (c_id cl) cl')) = Some cl'"
    using find_map_set[OF gc[unfolded getClubByName_def] kk] by simp
  show ?thesis
    unfolding leaveClub_state[OF gu gc]
    using gu gc nm
    by (auto simp: getUser_def getClubByName_def map_get_map_set_same f)
qed

lemma joinClub_keyed:
  assumes k: "clubs_keyed st"
  shows "clubs_keyed (fst (joinClub st u c))"
proof (cases "getUser st u")
  case None then show ?thesis using k by (simp add: joinClub_def)
next
  case (Some usr)
  show ?thesis
  proof (cases "getClubByName st c")
    case None then show ?thesis using k Some by (simp add: joinClub_def)
  next
    case (Some cl)
    have kk: "\<forall>kx \<in> set (clubs st). c_id (snd kx) = fst kx" using k by (simp add: clubs_keyed_def)
    show ?thesis
      unfolding joinClub_state[OF \<open>getUser st u = Some usr\<close> Some] clubs_keyed_def
      using kk keyed_map_set[where key=c_id and m="clubs st" and k="c_id cl"
                and v="cl\<lparr>c_members := Some (as_array (c_members cl) @ [u])\<rparr>"]
      by simp
  qed
qed

lemma map_get_in: "map_get m k = Some v \<Longrightarrow> (k, v) \<in> set m"
  by (simp add: map_get_def map_of_SomeD)

lemma in_map_get: "distinct (map fst m) \<Longrightarrow> (k, v) \<in> set m \<Longrightarrow> map_get m k = Some v"
  by (simp add: map_get_def)

lemma keys_map_set_present: "map_get m k = Some old \<Longrightarrow> map fst (map_set m k v) = map fst m"
  by (induction m) (auto simp: map_get_def split: if_splits)

lemma map_set_fresh: "k \<notin> set (map fst m) \<Longrightarrow> map_set m k v = m @ [(k, v)]"
  by (induction m) auto

lemma set_map_set_present:
  "distinct (map fst m) \<Longrightarrow> map_get m k = Some old \<Longrightarrow>
   set (map_set m k v) = insert (k, v) (set m - {(k, old)})"
proof (induction m)
  case Nil
  then show ?case by (simp add: map_get_def)
next
  case (Cons a m)
  obtain k' v' where a: "a = (k', v')" by (cases a)
  show ?case
  proof (cases "k' = k")
    case True
    then have "old = v'" using Cons.prems a by (simp add: map_get_def)
    moreover have "(k, v') \<notin> set m" using Cons.prems True a by (auto simp: image_iff)
    ultimately show ?thesis using True a by auto
  next
    case False
    then have g: "map_get m k = Some old" using Cons.prems a by (simp add: map_get_def)
    have d: "distinct (map fst m)" using Cons.prems by simp
    show ?thesis using Cons.IH[OF d g] False a by auto
  qed
qed

lemma values_map_set_same_field:
  "map_get m k = Some old \<Longrightarrow> f v = f old \<Longrightarrow>
   map f (map_values (map_set m k v)) = map f (map_values m)"
  by (induction m) (auto simp: map_get_def map_values_def split: if_splits)

lemma find_in_values: "find P (map_values m) = Some x \<Longrightarrow> \<exists>k. (k, x) \<in> set m \<and> P x"
  by (induction m) (auto simp: map_values_def split: if_splits)

lemma find_None_values: "find P (map_values m) = None \<Longrightarrow> (k, x) \<in> set m \<Longrightarrow> \<not> P x"
  by (induction m) (auto simp: map_values_def split: if_splits)

lemma relate_ok:
  assumes inv: "store_ok st"
    and gu: "map_get (users st) u = Some usr"
    and gc: "map_get (clubs st) k = Some cl"
    and both: "(c_name cl \<in> set xs) = (u \<in> set ms)"
    and xs: "set xs - {c_name cl} = set (as_array (u_clubs usr)) - {c_name cl}"
    and ms: "set ms - {u} = set (as_array (c_members cl)) - {u}"
  shows "store_ok (st\<lparr>users := map_set (users st) u (usr\<lparr>u_clubs := Some xs\<rparr>),
                     clubs := map_set (clubs st) k (cl\<lparr>c_members := Some ms\<rparr>)\<rparr>)"
proof -
  let ?usr = "usr\<lparr>u_clubs := Some xs\<rparr>"
  let ?cl = "cl\<lparr>c_members := Some ms\<rparr>"
  have uk: "users_keyed st" and ck: "clubs_keyed st"
    and du: "distinct (map fst (users st))" and dc: "distinct (map fst (clubs st))"
    and dn: "distinct (map c_name (map_values (clubs st)))"
    and mk: "\<forall>c \<in> set (map_values (clubs st)). set (as_array (c_members c)) \<subseteq> set (map fst (users st))"
    and cn: "\<forall>u \<in> set (map_values (users st)). set (as_array (u_clubs u)) \<subseteq> set (map c_name (map_values (clubs st)))"
    and mi: "mirror st"
    using inv by (simp_all add: store_ok_def)
  have uin: "(u, usr) \<in> set (users st)" and cin: "(k, cl) \<in> set (clubs st)"
    using gu gc by (simp_all add: map_get_in)
  have uid: "u_id usr = u" using uk uin by (auto simp: users_keyed_def)
  have cid: "c_id cl = k" using ck cin by (auto simp: clubs_keyed_def)
  have su: "set (map_set (users st) u ?usr) = insert (u, ?usr) (set (users st) - {(u, usr)})"
    by (rule set_map_set_present[OF du gu])
  have sc: "set (map_set (clubs st) k ?cl) = insert (k, ?cl) (set (clubs st) - {(k, cl)})"
    by (rule set_map_set_present[OF dc gc])
  have ku: "map fst (map_set (users st) u ?usr) = map fst (users st)"
    by (rule keys_map_set_present[OF gu])
  have kc: "map fst (map_set (clubs st) k ?cl) = map fst (clubs st)"
    by (rule keys_map_set_present[OF gc])
  have nc: "map c_name (map_values (map_set (clubs st) k ?cl)) = map c_name (map_values (clubs st))"
    by (rule values_map_set_same_field[OF gc]) simp
  have other_user: "\<And>k' x. (k', x) \<in> set (users st) \<Longrightarrow> (k', x) \<noteq> (u, usr) \<Longrightarrow> u_id x \<noteq> u"
  proof -
    fix k' x assume a: "(k', x) \<in> set (users st)" "(k', x) \<noteq> (u, usr)"
    have "u_id x = k'" using uk a(1) by (auto simp: users_keyed_def)
    moreover have "k' \<noteq> u"
    proof
      assume "k' = u"
      then have "map_get (users st) u = Some x" using in_map_get[OF du] a(1) by simp
      then show False using gu a(2) \<open>k' = u\<close> by simp
    qed
    ultimately show "u_id x \<noteq> u" by simp
  qed
  have other_club: "\<And>k' y. (k', y) \<in> set (clubs st) \<Longrightarrow> (k', y) \<noteq> (k, cl) \<Longrightarrow> c_name y \<noteq> c_name cl"
  proof -
    fix k' y assume a: "(k', y) \<in> set (clubs st)" "(k', y) \<noteq> (k, cl)"
    have "k' \<noteq> k"
    proof
      assume "k' = k"
      then have "map_get (clubs st) k = Some y" using in_map_get[OF dc] a(1) by simp
      then show False using gc a(2) \<open>k' = k\<close> by simp
    qed
    have inj: "inj_on (c_name \<circ> snd) (set (clubs st))"
      using dn by (simp add: map_values_def distinct_map)
    show "c_name y \<noteq> c_name cl"
    proof
      assume "c_name y = c_name cl"
      then have "(c_name \<circ> snd) (k', y) = (c_name \<circ> snd) (k, cl)" by simp
      then have "(k', y) = (k, cl)" using inj_onD[OF inj _ a(1) cin] by blast
      then show False using a(2) by simp
    qed
  qed
  have p1: "users_keyed (st\<lparr>users := map_set (users st) u ?usr, clubs := map_set (clubs st) k ?cl\<rparr>)"
    using uk uid by (auto simp: users_keyed_def su)
  have p2: "clubs_keyed (st\<lparr>users := map_set (users st) u ?usr, clubs := map_set (clubs st) k ?cl\<rparr>)"
    using ck cid by (auto simp: clubs_keyed_def sc)
  have uks: "u \<in> set (map fst (users st))" using uin by (force simp: image_iff)
  have cns: "c_name cl \<in> set (map c_name (map_values (clubs st)))"
    using cin by (force simp: map_values_def image_iff)
  have p6: "\<forall>c \<in> snd ` set (map_set (clubs st) k ?cl). set (as_array (c_members c)) \<subseteq> set (map fst (users st))"
  proof
    fix c assume "c \<in> snd ` set (map_set (clubs st) k ?cl)"
    then have "c = ?cl \<or> c \<in> set (map_values (clubs st))" by (auto simp: sc map_values_def image_iff)
    then show "set (as_array (c_members c)) \<subseteq> set (map fst (users st))"
    proof
      assume c: "c = ?cl"
      have "set (as_array (c_members cl)) \<subseteq> set (map fst (users st))"
        using mk cin by (force simp: map_values_def image_iff)
      moreover have "set (as_array (c_members c)) = set ms" using c by (simp add: as_array_def)
      ultimately show ?thesis using ms uks by blast
    next
      assume "c \<in> set (map_values (clubs st))" then show ?thesis using mk by blast
    qed
  qed
  have p7: "\<forall>x \<in> snd ` set (map_set (users st) u ?usr). set (as_array (u_clubs x)) \<subseteq> set (map c_name (map_values (clubs st)))"
  proof
    fix x assume "x \<in> snd ` set (map_set (users st) u ?usr)"
    then have "x = ?usr \<or> x \<in> set (map_values (users st))" by (auto simp: su map_values_def image_iff)
    then show "set (as_array (u_clubs x)) \<subseteq> set (map c_name (map_values (clubs st)))"
    proof
      assume x: "x = ?usr"
      have "set (as_array (u_clubs usr)) \<subseteq> set (map c_name (map_values (clubs st)))"
        using cn uin by (force simp: map_values_def image_iff)
      moreover have "set (as_array (u_clubs x)) = set xs" using x by (simp add: as_array_def)
      ultimately show ?thesis using xs cns by blast
    next
      assume "x \<in> set (map_values (users st))" then show ?thesis using cn by blast
    qed
  qed
  have old_mirror: "\<And>k1 x k2 y. (k1, x) \<in> set (users st) \<Longrightarrow> (k2, y) \<in> set (clubs st) \<Longrightarrow>
      (c_name y \<in> set (as_array (u_clubs x))) = (u_id x \<in> set (as_array (c_members y)))"
    using mi by (force simp: mirror_def map_values_def image_iff)
  have p8: "mirror (st\<lparr>users := map_set (users st) u ?usr, clubs := map_set (clubs st) k ?cl\<rparr>)"
    unfolding mirror_def
  proof (intro ballI)
    fix x y
    assume "x \<in> set (map_values (users (st\<lparr>users := map_set (users st) u ?usr, clubs := map_set (clubs st) k ?cl\<rparr>)))"
      and "y \<in> set (map_values (clubs (st\<lparr>users := map_set (users st) u ?usr, clubs := map_set (clubs st) k ?cl\<rparr>)))"
    then have xc: "x = ?usr \<or> (\<exists>k1. (k1, x) \<in> set (users st) \<and> (k1, x) \<noteq> (u, usr))"
      and yc: "y = ?cl \<or> (\<exists>k2. (k2, y) \<in> set (clubs st) \<and> (k2, y) \<noteq> (k, cl))"
      by (auto simp: su sc map_values_def image_iff)
    show "(c_name y \<in> set (as_array (u_clubs x))) = (u_id x \<in> set (as_array (c_members y)))"
    proof (cases "x = ?usr")
      case xT: True
      show ?thesis
      proof (cases "y = ?cl")
        case True
        then show ?thesis using xT both uid by (simp add: as_array_def)
      next
        case False
        then obtain k2 where y: "(k2, y) \<in> set (clubs st)" "(k2, y) \<noteq> (k, cl)" using yc by blast
        have ne: "c_name y \<noteq> c_name cl" by (rule other_club[OF y])
        have "(c_name y \<in> set xs) = (c_name y \<in> set (as_array (u_clubs usr)))"
          using xs ne by blast
        also have "\<dots> = (u \<in> set (as_array (c_members y)))"
          using old_mirror[OF uin y(1)] uid by simp
        finally show ?thesis using xT uid by (simp add: as_array_def)
      qed
    next
      case xF: False
      then obtain k1 where x: "(k1, x) \<in> set (users st)" "(k1, x) \<noteq> (u, usr)" using xc by blast
      have ne: "u_id x \<noteq> u" by (rule other_user[OF x])
      show ?thesis
      proof (cases "y = ?cl")
        case True
        have "(u_id x \<in> set ms) = (u_id x \<in> set (as_array (c_members cl)))"
          using ms ne by blast
        also have "\<dots> = (c_name cl \<in> set (as_array (u_clubs x)))"
          using old_mirror[OF x(1) cin] by simp
        finally show ?thesis using True by (simp add: as_array_def)
      next
        case False
        then obtain k2 where y: "(k2, y) \<in> set (clubs st)" using yc by blast
        show ?thesis by (rule old_mirror[OF x(1) y])
      qed
    qed
  qed
  let ?st = "st\<lparr>users := map_set (users st) u ?usr, clubs := map_set (clubs st) k ?cl\<rparr>"
  have p3: "distinct (map fst (users ?st))" using du ku by simp
  have p4: "distinct (map fst (clubs ?st))" using dc kc by simp
  have p5: "distinct (map c_name (map_values (clubs ?st)))" using dn nc by simp
  have p6': "\<forall>c \<in> set (map_values (clubs ?st)).
               set (as_array (c_members c)) \<subseteq> set (map fst (users ?st))"
    using p6 ku by (simp add: map_values_def)
  have p7': "\<forall>x \<in> set (map_values (users ?st)).
               set (as_array (u_clubs x)) \<subseteq> set (map c_name (map_values (clubs ?st)))"
    using p7 nc by (simp add: map_values_def)
  show ?thesis
    unfolding store_ok_def using p1 p2 p3 p4 p5 p6' p7' p8 by blast
qed

lemma rsvpEvent_found:
  "map_get (events st) e = Some ev \<Longrightarrow>
   getEventById (fst (rsvpEvent st u e ty)) e =
     Some (if ty = Attending
           then ev\<lparr>e_attendees := Some (filter (\<lambda>i. i \<noteq> u) (as_array (e_attendees ev)) @ [u]),
                   e_interested := Some (filter (\<lambda>i. i \<noteq> u) (as_array (e_interested ev)))\<rparr>
           else ev\<lparr>e_attendees := Some (filter (\<lambda>i. i \<noteq> u) (as_array (e_attendees ev))),
                   e_interested := Some (filter (\<lambda>i. i \<noteq> u) (as_array (e_interested ev)) @ [u])\<rparr>)"
  by (simp add: rsvpEvent_def getEventById_def map_get_map_set_same Let_def)

lemma unrsvpEvent_found:
  "map_get (events st) e = Some ev \<Longrightarrow>
   getEventById (fst (unrsvpEvent st u e)) e =
     Some (ev\<lparr>e_attendees := Some (filter (\<lambda>i. i \<noteq> u) (as_array (e_attendees ev))),
              e_interested := Some (filter (\<lambda>i. i \<noteq> u) (as_array (e_interested ev)))\<rparr>)"
  by (simp add: unrsvpEvent_def getEventById_def map_get_map_set_same Let_def)

lemma rsvpEvent_result: "snd (rsvpEvent st u e ty) = (getEventById st e \<noteq> None)"
  by (simp add: rsvpEvent_def getEventById_def Let_def split: option.splits)

section \<open>RSVP\<close>

text \<open>
  C1. For an event \<open>ev\<close> of the store and any user \<open>u\<close>: after \<^verbatim>\<open>rsvpEvent\<close> with
  attending the event is still stored, \<open>u\<close> is among its attendees and not among its
  interested; after a following \<^verbatim>\<open>rsvpEvent\<close> with interested it is the other way
  round; after \<^verbatim>\<open>unrsvpEvent\<close> the event is still stored and \<open>u\<close> is in neither list.
  In each case the lists are the event's former lists without \<open>u\<close>, with \<open>u\<close> appended
  to the chosen one; every call succeeds and the other events are as before.
  \<^verbatim>\<open>rsvpEvent\<close> returns false exactly when no event has the identifier, and for a
  valid RSVP type the route answers 404 exactly then.
\<close>

theorem rsvp_exclusive:
  "(getEventById st e = Some ev \<longrightarrow>
      (let s1 = fst (rsvpEvent st u e Attending);
           s2 = fst (rsvpEvent s1 u e Interested);
           s3 = fst (unrsvpEvent s2 u e);
           s0 = fst (unrsvpEvent st u e);
           others_a = filter (\<lambda>i. i \<noteq> u) (as_array (e_attendees ev));
           others_i = filter (\<lambda>i. i \<noteq> u) (as_array (e_interested ev))
       in (\<exists>ev1. getEventById s1 e = Some ev1 \<and>
             e_attendees ev1 = Some (others_a @ [u]) \<and> e_interested ev1 = Some others_i \<and>
             u \<in> set (as_array (e_attendees ev1)) \<and> u \<notin> set (as_array (e_interested ev1))) \<and>
          (\<exists>ev2. getEventById s2 e = Some ev2 \<and>
             e_attendees ev2 = Some others_a \<and> e_interested ev2 = Some (others_i @ [u]) \<and>
             u \<in> set (as_array (e_interested ev2)) \<and> u \<notin> set (as_array (e_attendees ev2))) \<and>
          (\<exists>ev3. getEventById s3 e = Some ev3 \<and>
             e_attendees ev3 = Some others_a \<and> e_interested ev3 = Some others_i \<and>
             u \<notin> set (as_array (e_attendees ev3)) \<and> u \<notin> set (as_array (e_interested ev3))) \<and>
          (\<exists>ev0. getEventById s0 e = Some ev0 \<and>
             e_attendees ev0 = Some others_a \<and> e_interested ev0 = Some others_i \<and>
             u \<notin> set (as_array (e_attendees ev0)) \<and> u \<notin> set (as_array (e_interested ev0))) \<and>
          snd (rsvpEvent st u e Attending) \<and> snd (rsvpEvent s1 u e Interested) \<and>
          snd (unrsvpEvent s2 u e) \<and> snd (unrsvpEvent st u e) \<and>
          (\<forall>j. j \<noteq> e \<longrightarrow> getEventById s3 j = getEventById st j))) \<and>
   (snd (rsvpEvent st u e ty) = False) = (getEventById st e = None) \<and>
   (ty' \<in> {''attending'', ''interested''} \<longrightarrow>
      (snd (post_events_rsvp st req_user e (Some ty')) = Fail 404 ''Event not found'')
        = (getEventById st e = None))"
proof (intro conjI impI)
  assume "getEventById st e = Some ev"
  then have ev: "map_get (events st) e = Some ev" by (simp add: getEventById_def)
  define s1 where "s1 = fst (rsvpEvent st u e Attending)"
  define s2 where "s2 = fst (rsvpEvent s1 u e Interested)"
  define s3 where "s3 = fst (unrsvpEvent s2 u e)"
  define s0 where "s0 = fst (unrsvpEvent st u e)"
  define oa where "oa = filter (\<lambda>i. i \<noteq> u) (as_array (e_attendees ev))"
  define oi where "oi = filter (\<lambda>i. i \<noteq> u) (as_array (e_interested ev))"
  define ev1 where "ev1 = ev\<lparr>e_attendees := Some (oa @ [u]), e_interested := Some oi\<rparr>"
  define ev2 where "ev2 = ev1\<lparr>e_attendees := Some oa, e_interested := Some (oi @ [u])\<rparr>"
  define ev3 where "ev3 = ev2\<lparr>e_attendees := Some oa, e_interested := Some oi\<rparr>"
  define ev0 where "ev0 = ev\<lparr>e_attendees := Some oa, e_interested := Some oi\<rparr>"
  have nu: "filter (\<lambda>i. i \<noteq> u) oa = oa" "filter (\<lambda>i. i \<noteq> u) oi = oi"
    by (simp_all add: oa_def oi_def)
  have g1: "getEventById s1 e = Some ev1"
    unfolding s1_def ev1_def oa_def oi_def using rsvpEvent_found[OF ev, of u Attending] by simp
  then have m1: "map_get (events s1) e = Some ev1" by (simp add: getEventById_def)
  have g2: "getEventById s2 e = Some ev2"
    unfolding s2_def using rsvpEvent_found[OF m1, of u Interested]
    by (simp add: ev2_def ev1_def as_array_def nu)
  then have m2: "map_get (events s2) e = Some ev2" by (simp add: getEventById_def)
  have g3: "getEventById s3 e = Some ev3"
    unfolding s3_def using unrsvpEvent_found[OF m2, of u]
    by (simp add: ev3_def ev2_def as_array_def nu)
  have g0: "getEventById s0 e = Some ev0"
    unfolding s0_def ev0_def oa_def oi_def using unrsvpEvent_found[OF ev, of u] by simp
  have r: "snd (rsvpEvent st u e Attending)" "snd (rsvpEvent s1 u e Interested)"
    "snd (unrsvpEvent s2 u e)" "snd (unrsvpEvent st u e)"
    using ev m1 m2 by (simp_all add: rsvpEvent_def unrsvpEvent_def Let_def)
  have nin: "u \<notin> set oa" "u \<notin> set oi" by (simp_all add: oa_def oi_def)
  have oth: "\<forall>j. j \<noteq> e \<longrightarrow> getEventById s3 j = getEventById st j"
    using ev m1 m2
    by (simp add: s3_def s2_def s1_def getEventById_def rsvpEvent_def unrsvpEvent_def Let_def
        map_get_map_set_other)
  have c1: "\<exists>ev1. getEventById s1 e = Some ev1 \<and>
             e_attendees ev1 = Some (oa @ [u]) \<and> e_interested ev1 = Some oi \<and>
             u \<in> set (as_array (e_attendees ev1)) \<and> u \<notin> set (as_array (e_interested ev1))"
    using g1 nin by (simp add: ev1_def as_array_def)
  have c2: "\<exists>ev2. getEventById s2 e = Some ev2 \<and>
             e_attendees ev2 = Some oa \<and> e_interested ev2 = Some (oi @ [u]) \<and>
             u \<in> set (as_array (e_interested ev2)) \<and> u \<notin> set (as_array (e_attendees ev2))"
    using g2 nin by (simp add: ev2_def as_array_def)
  have c3: "\<exists>ev3. getEventById s3 e = Some ev3 \<and>
             e_attendees ev3 = Some oa \<and> e_interested ev3 = Some oi \<and>
             u \<notin> set (as_array (e_attendees ev3)) \<and> u \<notin> set (as_array (e_interested ev3))"
    using g3 nin by (simp add: ev3_def as_array_def)
  have c0: "\<exists>ev0. getEventById s0 e = Some ev0 \<and>
             e_attendees ev0 = Some oa \<and> e_interested ev0 = Some oi \<and>
             u \<notin> set (as_array (e_attendees ev0)) \<and> u \<notin> set (as_array (e_interested ev0))"
    using g0 nin by (simp add: ev0_def as_array_def)
  show "let s1 = fst (rsvpEvent st u e Attending);
           s2 = fst (rsvpEvent s1 u e Interested);
           s3 = fst (unrsvpEvent s2 u e);
           s0 = fst (unrsvpEvent st u e);
           others_a = filter (\<lambda>i. i \<noteq> u) (as_array (e_attendees ev));
           others_i = filter (\<lambda>i. i \<noteq> u) (as_array (e_interested ev))
       in (\<exists>ev1. getEventById s1 e = Some ev1 \<and>
             e_attendees ev1 = Some (others_a @ [u]) \<and> e_interested ev1 = Some others_i \<and>
             u \<in> set (as_array (e_attendees ev1)) \<and> u \<notin> set (as_array (e_interested ev1))) \<and>
          (\<exists>ev2. getEventById s2 e = Some ev2 \<and>
             e_attendees ev2 = Some others_a \<and> e_interested ev2 = Some (others_i @ [u]) \<and>
             u \<in> set (as_array (e_interested ev2)) \<and> u \<notin> set (as_array (e_attendees ev2))) \<and>
          (\<exists>ev3. getEventById s3 e = Some ev3 \<and>
             e_attendees ev3 = Some others_a \<and> e_interested ev3 = Some others_i \<and>
             u \<notin> set (as_array (e_attendees ev3)) \<and> u \<notin> set (as_array (e_interested ev3))) \<and>
          (\<exists>ev0. getEventById s0 e = Some ev0 \<and>
             e_attendees ev0 = Some others_a \<and> e_interested ev0 = Some others_i \<and>
             u \<notin> set (as_array (e_attendees ev0)) \<and> u \<notin> set (as_array (e_interested ev0))) \<and>
          snd (rsvpEvent st u e Attending) \<and> snd (rsvpEvent s1 u e Interested) \<and>
          snd (unrsvpEvent s2 u e) \<and> snd (unrsvpEvent st u e) \<and>
          (\<forall>j. j \<noteq> e \<longrightarrow> getEventById s3 j = getEventById st j)"
    unfolding Let_def s1_def[symmetric] s2_def[symmetric] s3_def[symmetric] s0_def[symmetric]
      oa_def[symmetric] oi_def[symmetric]
    using c1 c2 c3 c0 r oth by blast
next
  show "(snd (rsvpEvent st u e ty) = False) = (getEventById st e = None)"
    by (simp add: rsvpEvent_result)
next
  assume "ty' \<in> {''attending'', ''interested''}"
  then show "(snd (post_events_rsvp st req_user e (Some ty')) = Fail 404 ''Event not found'')
        = (getEventById st e = None)"
    by (auto simp: post_events_rsvp_def rsvpEvent_def getEventById_def Let_def split: option.splits)
qed

theorem rsvp_exclusive_witness:
  "getEventById campus ''e1'' = Some fest \<and>
   (\<exists>ev1. getEventById (fst (rsvpEvent campus ''u2'' ''e1'' Attending)) ''e1'' = Some ev1 \<and>
      e_attendees ev1 = Some [''u1'', ''u2''] \<and> e_interested ev1 = Some []) \<and>
   (\<exists>ev0. getEventById (fst (unrsvpEvent campus ''u2'' ''e1'')) ''e1'' = Some ev0 \<and>
      e_attendees ev0 = Some [''u1''] \<and> e_interested ev0 = Some []) \<and>
   ''attending'' \<in> {''attending'', ''interested''} \<and>
   snd (post_events_rsvp campus bob ''e1'' (Some ''attending'')) \<noteq> Fail 404 ''Event not found''"
proof -
  have h: "getEventById campus ''e1'' = Some fest"
    by (simp add: getEventById_def campus_def map_get_def)
  have t: "''attending'' \<in> {''attending'', ''interested''}" by simp
  have f: "filter (\<lambda>i. i \<noteq> ''u2'') (as_array (e_attendees fest)) = [''u1'']"
    "filter (\<lambda>i. i \<noteq> ''u2'') (as_array (e_interested fest)) = []"
    by (simp_all add: fest_def as_array_def)
  show ?thesis
    using rsvp_exclusive[of campus "''e1''" fest "''u2''" Attending "''attending''" bob] h t
    by (simp add: Let_def f, blast)
qed

section \<open>Joining and leaving a club\<close>

text \<open>
  C5. For a user \<open>usr\<close> stored under \<open>u\<close> and a club \<open>cl\<close> found by the name \<open>c\<close>
  (clubs stored under their identifiers): \<^verbatim>\<open>joinClub\<close> succeeds, and afterwards both
  records are still read back, unchanged but for the two lists, with \<open>c\<close> among the
  user's clubs and \<open>u\<close> among the club's members, each appended once if it was missing;
  a second \<^verbatim>\<open>joinClub\<close> succeeds and leaves the store as it is, and lists without
  duplicates stay so. \<^verbatim>\<open>leaveClub\<close>, after the join or on the store as given,
  succeeds, and both records are still read back with the former lists without \<open>c\<close>
  and without \<open>u\<close>. \<^verbatim>\<open>joinClub\<close> returns false exactly when the user or the club is
  missing.
\<close>

theorem joinClub_leaveClub:
  "(clubs_keyed st \<and> getUser st u = Some usr \<and> getClubByName st c = Some cl \<longrightarrow>
     (let st1 = fst (joinClub st u c);
          st2 = fst (leaveClub st1 u c);
          st0 = fst (leaveClub st u c);
          joined = as_array (u_clubs usr);
          members = as_array (c_members cl)
      in snd (joinClub st u c) \<and>
         (\<exists>usr1 cl1.
            getUser st1 u = Some usr1 \<and> getClubByName st1 c = Some cl1 \<and>
            usr1 = usr\<lparr>u_clubs := u_clubs usr1\<rparr> \<and> cl1 = cl\<lparr>c_members := c_members cl1\<rparr> \<and>
            as_array (u_clubs usr1) = (if c \<in> set joined then joined else joined @ [c]) \<and>
            as_array (c_members cl1) = (if u \<in> set members then members else members @ [u]) \<and>
            c \<in> set (as_array (u_clubs usr1)) \<and> u \<in> set (as_array (c_members cl1)) \<and>
            (distinct joined \<longrightarrow> distinct (as_array (u_clubs usr1))) \<and>
            (distinct members \<longrightarrow> distinct (as_array (c_members cl1)))) \<and>
         joinClub st1 u c = (st1, True) \<and>
         snd (leaveClub st1 u c) \<and>
         (\<exists>usr2 cl2.
            getUser st2 u = Some usr2 \<and> getClubByName st2 c = Some cl2 \<and>
            usr2 = usr\<lparr>u_clubs := u_clubs usr2\<rparr> \<and> cl2 = cl\<lparr>c_members := c_members cl2\<rparr> \<and>
            u_clubs usr2 = Some (filter (\<lambda>x. x \<noteq> c) joined) \<and>
            c_members cl2 = Some (filter (\<lambda>m. m \<noteq> u) members) \<and>
            c \<notin> set (as_array (u_clubs usr2)) \<and> u \<notin> set (as_array (c_members cl2))) \<and>
         snd (leaveClub st u c) \<and>
         (\<exists>usr0 cl0.
            getUser st0 u = Some usr0 \<and> getClubByName st0 c = Some cl0 \<and>
            usr0 = usr\<lparr>u_clubs := u_clubs usr0\<rparr> \<and> cl0 = cl\<lparr>c_members := c_members cl0\<rparr> \<and>
            u_clubs usr0 = Some (filter (\<lambda>x. x \<noteq> c) joined) \<and>
            c_members cl0 = Some (filter (\<lambda>m. m \<noteq> u) members) \<and>
            c \<notin> set (as_array (u_clubs usr0)) \<and> u \<notin> set (as_array (c_members cl0))))) \<and>
   (snd (joinClub st u c) = False) = (getUser st u = None \<or> getClubByName st c = None)"
proof (intro conjI impI)
  assume a: "clubs_keyed st \<and> getUser st u = Some usr \<and> getClubByName st c = Some cl"
  then have k: "clubs_keyed st" and gu: "getUser st u = Some usr"
    and gc: "getClubByName st c = Some cl" by auto
  define st1 where "st1 = fst (joinClub st u c)"
  define st2 where "st2 = fst (leaveClub st1 u c)"
  define st0 where "st0 = fst (leaveClub st u c)"
  define X where "X = as_array (u_clubs usr)"
  define M where "M = as_array (c_members cl)"
  define usr1 where "usr1 = (if c \<in> set X then usr else usr\<lparr>u_clubs := Some (X @ [c])\<rparr>)"
  define cl1 where "cl1 = (if u \<in> set M then cl else cl\<lparr>c_members := Some (M @ [u])\<rparr>)"
  define usr2 where "usr2 = usr1\<lparr>u_clubs := Some (filter (\<lambda>x. x \<noteq> c) (as_array (u_clubs usr1)))\<rparr>"
  define cl2 where "cl2 = cl1\<lparr>c_members := Some (filter (\<lambda>m. m \<noteq> u) (as_array (c_members cl1)))\<rparr>"
  define usr0 where "usr0 = usr\<lparr>u_clubs := Some (filter (\<lambda>x. x \<noteq> c) X)\<rparr>"
  define cl0 where "cl0 = cl\<lparr>c_members := Some (filter (\<lambda>m. m \<noteq> u) M)\<rparr>"
  have gu1: "getUser st1 u = Some usr1" and gc1: "getClubByName st1 c = Some cl1"
    using joinClub_reads_exact[OF k gu gc] by (simp_all add: st1_def usr1_def cl1_def X_def M_def)
  have k1: "clubs_keyed st1" unfolding st1_def by (rule joinClub_keyed[OF k])
  have gu2: "getUser st2 u = Some usr2" and gc2: "getClubByName st2 c = Some cl2"
    using leaveClub_reads_exact[OF k1 gu1 gc1] by (simp_all add: st2_def usr2_def cl2_def)
  have gu0: "getUser st0 u = Some usr0" and gc0: "getClubByName st0 c = Some cl0"
    using leaveClub_reads_exact[OF k gu gc] by (simp_all add: st0_def usr0_def cl0_def X_def M_def)
  have a1: "as_array (u_clubs usr1) = (if c \<in> set X then X else X @ [c])"
    by (simp add: usr1_def X_def as_array_def)
  have b1: "as_array (c_members cl1) = (if u \<in> set M then M else M @ [u])"
    by (simp add: cl1_def M_def as_array_def)
  have r1: "usr1 = usr\<lparr>u_clubs := u_clubs usr1\<rparr>" "cl1 = cl\<lparr>c_members := c_members cl1\<rparr>"
    by (simp_all add: usr1_def cl1_def)
  have in1: "c \<in> set (as_array (u_clubs usr1))" "u \<in> set (as_array (c_members cl1))"
    by (simp_all add: a1 b1)
  have d1: "distinct X \<longrightarrow> distinct (as_array (u_clubs usr1))"
    "distinct M \<longrightarrow> distinct (as_array (c_members cl1))"
    by (simp_all add: a1 b1)
  have again: "joinClub st1 u c = (st1, True)"
    using gu1 gc1 in1 by (simp add: joinClub_def Let_def)
  have s: "snd (joinClub st u c)" "snd (leaveClub st1 u c)" "snd (leaveClub st u c)"
    using gu gc gu1 gc1 by (simp_all add: joinClub_def leaveClub_def Let_def)
  have a2: "u_clubs usr2 = Some (filter (\<lambda>x. x \<noteq> c) X)"
    by (simp add: usr2_def a1)
  have b2: "c_members cl2 = Some (filter (\<lambda>m. m \<noteq> u) M)"
    by (simp add: cl2_def b1)
  have r2: "usr2 = usr\<lparr>u_clubs := u_clubs usr2\<rparr>" "cl2 = cl\<lparr>c_members := c_members cl2\<rparr>"
    by (simp_all add: usr2_def cl2_def usr1_def cl1_def)
  have n2: "c \<notin> set (as_array (u_clubs usr2))" "u \<notin> set (as_array (c_members cl2))"
    by (simp_all add: a2 b2 as_array_def)
  have a0: "u_clubs usr0 = Some (filter (\<lambda>x. x \<noteq> c) X)"
    "c_members cl0 = Some (filter (\<lambda>m. m \<noteq> u) M)"
    by (simp_all add: usr0_def cl0_def)
  have r0: "usr0 = usr\<lparr>u_clubs := u_clubs usr0\<rparr>" "cl0 = cl\<lparr>c_members := c_members cl0\<rparr>"
    by (simp_all add: usr0_def cl0_def)
  have n0: "c \<notin> set (as_array (u_clubs usr0))" "u \<notin> set (as_array (c_members cl0))"
    by (simp_all add: a0 as_array_def)
  have e1: "\<exists>usr1 cl1.
            getUser st1 u = Some usr1 \<and> getClubByName st1 c = Some cl1 \<and>
            usr1 = usr\<lparr>u_clubs := u_clubs usr1\<rparr> \<and> cl1 = cl\<lparr>c_members := c_members cl1\<rparr> \<and>
            as_array (u_clubs usr1) = (if c \<in> set X then X else X @ [c]) \<and>
            as_array (c_members cl1) = (if u \<in> set M then M else M @ [u]) \<and>
            c \<in> set (as_array (u_clubs usr1)) \<and> u \<in> set (as_array (c_members cl1)) \<and>
            (distinct X \<longrightarrow> distinct (as_array (u_clubs usr1))) \<and>
            (distinct M \<longrightarrow> distinct (as_array (c_members cl1)))"
    using gu1 gc1 r1 a1 b1 in1 d1 by blast
  have e2: "\<exists>usr2 cl2.
            getUser st2 u = Some usr2 \<and> getClubByName st2 c = Some cl2 \<and>
            usr2 = usr\<lparr>u_clubs := u_clubs usr2\<rparr> \<and> cl2 = cl\<lparr>c_members := c_members cl2\<rparr> \<and>
            u_clubs usr2 = Some (filter (\<lambda>x. x \<noteq> c) X) \<and>
            c_members cl2 = Some (filter (\<lambda>m. m \<noteq> u) M) \<and>
            c \<notin> set (as_array (u_clubs usr2)) \<and> u \<notin> set (as_array (c_members cl2))"
    using gu2 gc2 r2 a2 b2 n2 by blast
  have e0: "\<exists>usr0 cl0.
            getUser st0 u = Some usr0 \<and> getClubByName st0 c = Some cl0 \<and>
            usr0 = usr\<lparr>u_clubs := u_clubs usr0\<rparr> \<and> cl0 = cl\<lparr>c_members := c_members cl0\<rparr> \<and>
            u_clubs usr0 = Some (filter (\<lambda>x. x \<noteq> c) X) \<and>
            c_members cl0 = Some (filter (\<lambda>m. m \<noteq> u) M) \<and>
            c \<notin> set (as_array (u_clubs usr0)) \<and> u \<notin> set (as_array (c_members cl0))"
    using gu0 gc0 r0 a0 n0 by blast
  show "let st1 = fst (joinClub st u c);
          st2 = fst (leaveClub st1 u c);
          st0 = fst (leaveClub st u c);
          joined = as_array (u_clubs usr);
          members = as_array (c_members cl)
      in snd (joinClub st u c) \<and>
         (\<exists>usr1 cl1.
            getUser st1 u = Some usr1 \<and> getClubByName st1 c = Some cl1 \<and>
            usr1 = usr\<lparr>u_clubs := u_clubs usr1\<rparr> \<and> cl1 = cl\<lparr>c_members := c_members cl1\<rparr> \<and>
            as_array (u_clubs usr1) = (if c \<in> set joined then joined else joined @ [c]) \<and>
            as_array (c_members cl1) = (if u \<in> set members then members else members @ [u]) \<and>
            c \<in> set (as_array (u_clubs usr1)) \<and> u \<in> set (as_array (c_members cl1)) \<and>
            (distinct joined \<longrightarrow> distinct (as_array (u_clubs usr1))) \<and>
            (distinct members \<longrightarrow> distinct (as_array (c_members cl1)))) \<and>
         joinClub st1 u c = (st1, True) \<and>
         snd (leaveClub st1 u c) \<and>
         (\<exists>usr2 cl2.
            getUser st2 u = Some usr2 \<and> getClubByName st2 c = Some cl2 \<and>
            usr2 = usr\<lparr>u_clubs := u_clubs usr2\<rparr> \<and> cl2 = cl\<lparr>c_members := c_members cl2\<rparr> \<and>
            u_clubs usr2 = Some (filter (\<lambda>x. x \<noteq> c) joined) \<and>
            c_members cl2 = Some (filter (\<lambda>m. m \<noteq> u) members) \<and>
            c \<notin> set (as_array (u_clubs usr2)) \<and> u \<notin> set (as_array (c_members cl2))) \<and>
         snd (leaveClub st u c) \<and>
         (\<exists>usr0 cl0.
            getUser st0 u = Some usr0 \<and> getClubByName st0 c = Some cl0 \<and>
            usr0 = usr\<lparr>u_clubs := u_clubs usr0\<rparr> \<and> cl0 = cl\<lparr>c_members := c_members cl0\<rparr> \<and>
            u_clubs usr0 = Some (filter (\<lambda>x. x \<noteq> c) joined) \<and>
            c_members cl0 = Some (filter (\<lambda>m. m \<noteq> u) members) \<and>
            c \<notin> set (as_array (u_clubs usr0)) \<and> u \<notin> set (as_array (c_members cl0)))"
    unfolding Let_def st1_def[symmetric] st2_def[symmetric] st0_def[symmetric]
      X_def[symmetric] M_def[symmetric]
    using s again e1 e2 e0 by blast
next
  show "(snd (joinClub st u c) = False) = (getUser st u = None \<or> getClubByName st c = None)"
    by (rule joinClub_missing)
qed

theorem joinClub_leaveClub_witness:
  "clubs_keyed campus \<and> getUser campus ''u2'' = Some bob \<and>
   getClubByName campus ''Coding Club'' = Some (default_club 0 ''c1'' (defaultClubs ! 0)) \<and>
   (\<exists>usr1 cl1. getUser (fst (joinClub campus ''u2'' ''Coding Club'')) ''u2'' = Some usr1 \<and>
      getClubByName (fst (joinClub campus ''u2'' ''Coding Club'')) ''Coding Club'' = Some cl1 \<and>
      as_array (u_clubs usr1) = [''Coding Club''] \<and> as_array (c_members cl1) = [''u2'']) \<and>
   (\<exists>usr0 cl0. getUser (fst (leaveClub campus ''u2'' ''Coding Club'')) ''u2'' = Some usr0 \<and>
      getClubByName (fst (leaveClub campus ''u2'' ''Coding Club'')) ''Coding Club'' = Some cl0 \<and>
      u_clubs usr0 = Some [] \<and> c_members cl0 = Some []) \<and>
   snd (joinClub campus ''u2'' ''Coding Club'')"
proof -
  have campus_clubs: "clubs campus =
     [(''c1'', default_club 0 ''c1'' (defaultClubs ! 0)), (''c2'', default_club 0 ''c2'' (defaultClubs ! 1)),
      (''c3'', default_club 0 ''c3'' (defaultClubs ! 2)), (''c4'', default_club 0 ''c4'' (defaultClubs ! 3)),
      (''c5'', default_club 0 ''c5'' (defaultClubs ! 4))]"
    by (simp add: campus_def initializeDefaultClubs_def defaultClubs_def)
  have k: "clubs_keyed campus"
    by (simp add: clubs_keyed_def campus_clubs default_club_def)
  have u: "getUser campus ''u2'' = Some bob"
    by (simp add: getUser_def campus_def map_get_def)
  have g: "getClubByName campus ''Coding Club'' = Some (default_club 0 ''c1'' (defaultClubs ! 0))"
    by (simp add: getClubByName_def campus_clubs map_values_def default_club_def defaultClubs_def)
  have f: "as_array (u_clubs bob) = []" "as_array (c_members (default_club 0 ''c1'' (defaultClubs ! 0))) = []"
    by (simp_all add: bob_def default_club_def as_array_def)
  show ?thesis
    using joinClub_leaveClub[of campus "''u2''" bob "''Coding Club''" "default_club 0 ''c1'' (defaultClubs ! 0)"] k u g
    by (simp add: Let_def f, blast)
qed

section \<open>Events with counts\<close>

lemma truncate_with_counts: "event.truncate (with_counts e) = e"
  by (simp add: with_counts_def event.truncate_def event.extend_def)

lemma attendeeCount_with_counts: "attendeeCount (with_counts e) = length (as_array (e_attendees e))"
  by (simp add: with_counts_def event.extend_def event_with_details.fields_def as_array_def split: option.splits)

lemma interestedCount_with_counts: "interestedCount (with_counts e) = length (as_array (e_interested e))"
  by (simp add: with_counts_def event.extend_def event_with_details.fields_def as_array_def split: option.splits)

text \<open>
  C8. For every store, the counts \<^verbatim>\<open>getEvents\<close> returns with an event are the lengths
  of that event's attendees and interested arrays as they are in the store at the call
  (0 for a value that is not an array), and the event is returned as stored.
\<close>

theorem getEvents_counts:
  "map (\<lambda>d. (event.truncate d, attendeeCount d, interestedCount d)) (getEvents st) =
   map (\<lambda>e. (e, length (as_array (e_attendees e)), length (as_array (e_interested e))))
     (map_values (events st))"
  by (simp add: getEvents_def truncate_with_counts attendeeCount_with_counts
      interestedCount_with_counts)

lemma getEvents_after_rsvp: "map (\<lambda>d. (e_id d, attendeeCount d, interestedCount d)) (getEvents (fst (rsvpEvent campus ''u2'' ''e1'' Attending))) = [(''e1'', 2, 0)]"
  by (simp add: getEvents_def campus_def rsvpEvent_def map_get_def fest_def Let_def as_array_def map_values_def with_counts_def event.extend_def event_with_details.fields_def)

section \<open>Marking a notification read\<close>

text \<open>
  C10. \<^verbatim>\<open>markNotificationRead\<close> and its route check no owner: for any caller and any
  notification of the store, the read flag is set, the route answers 200, and the
  notification's other fields, the other notifications and the rest of the store are
  unchanged; an unknown identifier is answered with 404.
\<close>

theorem markNotificationRead_any_caller:
  "(map_get (notifications st) i = Some n \<longrightarrow>
      snd (markNotificationRead st i) \<and>
      map_get (notifications (fst (markNotificationRead st i))) i = Some (n\<lparr>n_read := True\<rparr>) \<and>
      (\<forall>j. j \<noteq> i \<longrightarrow>
         map_get (notifications (fst (markNotificationRead st i))) j = map_get (notifications st) j) \<and>
      map fst (notifications (fst (markNotificationRead st i))) = map fst (notifications st) \<and>
      users (fst (markNotificationRead st i)) = users st \<and>
      events (fst (markNotificationRead st i)) = events st \<and>
      clubs (fst (markNotificationRead st i)) = clubs st \<and>
      post_notifications_read st req_user i =
        (fst (markNotificationRead st i), Reply 200 ''Notification marked as read'')) \<and>
   (map_get (notifications st) i = None \<longrightarrow>
      post_notifications_read st req_user i = (st, Fail 404 ''Notification not found''))"
  by (auto simp: markNotificationRead_def post_notifications_read_def map_get_map_set_same
      map_get_map_set_other keys_map_set_present)

theorem markNotificationRead_any_caller_witness:
  "map_get (notifications campus) ''n1'' = Some greeting \<and> n_userId greeting \<noteq> Some (u_id alice) \<and>
   post_notifications_read campus alice ''n1'' =
     (fst (markNotificationRead campus ''n1''), Reply 200 ''Notification marked as read'') \<and>
   map_get (notifications (fst (markNotificationRead campus ''n1''))) ''n1'' = Some (greeting\<lparr>n_read := True\<rparr>)"
proof -
  have h: "map_get (notifications campus) ''n1'' = Some greeting"
    by (simp add: campus_def map_get_def)
  have o: "n_userId greeting \<noteq> Some (u_id alice)" by (simp add: greeting_def alice_def)
  show ?thesis
    using markNotificationRead_any_caller[of campus "''n1''" greeting alice] h o by simp
qed

section \<open>Updating a user\<close>

text \<open>
  C6 as the spec states it fails: an update object with an \<^verbatim>\<open>id\<close> and a
  \<^verbatim>\<open>createdAt\<close> key replaces both in the stored and in the returned user.
\<close>

theorem updateUser_overwrites_id:
  "map_option u_id (getUser campus ''u2'') = Some ''u2'' \<and>
   map_option u_createdAt (getUser campus ''u2'') = Some (Some 2) \<and>
   map_option u_id (snd (updateUser campus ''u2''
       (no_updates\<lparr>upd_id := Some ''u9'', upd_createdAt := Some (Some 99)\<rparr>))) = Some ''u9'' \<and>
   map_option u_createdAt (getUser (fst (updateUser campus ''u2''
       (no_updates\<lparr>upd_id := Some ''u9'', upd_createdAt := Some (Some 99)\<rparr>))) ''u2'') = Some (Some 99)"
  by (simp add: getUser_def updateUser_def campus_def map_get_def bob_def alice_def
      spread_user_def no_updates_def override_def Let_def)

text \<open>
  C6, amended. For a user of the store, \<^verbatim>\<open>updateUser\<close> stores and returns, under the
  same key, the user with every field the update object has replaced by the object's
  value, \<^verbatim>\<open>id\<close> and \<^verbatim>\<open>createdAt\<close> among them; both are unchanged when the object has
  neither key. Other users and the rest of the store are unchanged. It returns
  \<^verbatim>\<open>undefined\<close> exactly when the key is unknown, and changes nothing then.
\<close>

theorem updateUser_merges:
  "(getUser st i = Some u \<longrightarrow>
      (\<exists>u'. snd (updateUser st i p) = Some u' \<and>
            getUser (fst (updateUser st i p)) i = Some u' \<and>
            u_id u' = override (u_id u) (upd_id p) \<and>
            u_createdAt u' = override (u_createdAt u) (upd_createdAt p) \<and>
            u_name u' = override (u_name u) (upd_name p) \<and>
            u_email u' = override (u_email u) (upd_email p) \<and>
            u_password u' = override (u_password u) (upd_password p) \<and>
            u_role u' = override (u_role u) (upd_role p) \<and>
            u_clubs u' = override (u_clubs u) (upd_clubs p) \<and>
            u_avatar u' = override (u_avatar u) (upd_avatar p) \<and>
            u_isVerified u' =
              (case upd_isVerified p of None \<Rightarrow> u_isVerified u | Some b \<Rightarrow> Some b) \<and>
            (upd_id p = None \<longrightarrow> u_id u' = u_id u) \<and>
            (upd_createdAt p = None \<longrightarrow> u_createdAt u' = u_createdAt u)) \<and>
      (\<forall>j. j \<noteq> i \<longrightarrow> getUser (fst (updateUser st i p)) j = getUser st j) \<and>
      map fst (users (fst (updateUser st i p))) = map fst (users st) \<and>
      events (fst (updateUser st i p)) = events st \<and>
      clubs (fst (updateUser st i p)) = clubs st \<and>
      notifications (fst (updateUser st i p)) = notifications st) \<and>
   (snd (updateUser st i p) = None) = (getUser st i = None) \<and>
   (getUser st i = None \<longrightarrow> fst (updateUser st i p) = st)"
  by (auto simp: updateUser_def getUser_def Let_def map_get_map_set_same map_get_map_set_other
      keys_map_set_present spread_user_def override_def split: option.splits)

theorem updateUser_merges_witness:
  "getUser campus ''u2'' = Some bob \<and>
   map_option u_id (snd (updateUser campus ''u2'' (no_updates\<lparr>upd_name := Some ''Robert''\<rparr>))) = Some ''u2'' \<and>
   map_option u_name (snd (updateUser campus ''u2'' (no_updates\<lparr>upd_name := Some ''Robert''\<rparr>))) = Some ''Robert'' \<and>
   getUser campus ''u7'' = None \<and>
   fst (updateUser campus ''u7'' (no_updates\<lparr>upd_name := Some ''Robert''\<rparr>)) = campus"
proof -
  have h: "getUser campus ''u2'' = Some bob" by (simp add: getUser_def campus_def map_get_def)
  have n: "getUser campus ''u7'' = None" by (simp add: getUser_def campus_def map_get_def)
  have i: "upd_id (no_updates\<lparr>upd_name := Some ''Robert''\<rparr>) = None" by (simp add: no_updates_def)
  have m: "upd_name (no_updates\<lparr>upd_name := Some ''Robert''\<rparr>) = Some ''Robert''" by simp
  from updateUser_merges[of campus "''u2''" bob "no_updates\<lparr>upd_name := Some ''Robert''\<rparr>"] h
  obtain u' where u': "snd (updateUser campus ''u2'' (no_updates\<lparr>upd_name := Some ''Robert''\<rparr>)) = Some u'"
    "u_id u' = override (u_id bob) (upd_id (no_updates\<lparr>upd_name := Some ''Robert''\<rparr>))"
    "u_name u' = override (u_name bob) (upd_name (no_updates\<lparr>upd_name := Some ''Robert''\<rparr>))"
    by blast
  have "u_id u' = ''u2''" "u_name u' = ''Robert''"
    using u'(2,3) i m by (simp_all add: override_def bob_def)
  moreover have "fst (updateUser campus ''u7'' (no_updates\<lparr>upd_name := Some ''Robert''\<rparr>)) = campus"
    using updateUser_merges[of campus "''u7''" bob "no_updates\<lparr>upd_name := Some ''Robert''\<rparr>"] n by blast
  ultimately show ?thesis using h n u'(1) by simp
qed

section \<open>The connection registry\<close>

lemma filter_map_set:
  "distinct (map fst m) \<Longrightarrow> filter (\<lambda>kc. fst kc = k) (map_set m k v) = [(k, v)]"
proof (induction m)
  case Nil
  then show ?case by simp
next
  case (Cons a m)
  obtain k' v' where a: "a = (k', v')" by (cases a)
  show ?case
  proof (cases "k' = k")
    case True
    then have "k \<notin> fst ` set m" using Cons.prems a by simp
    then have "filter (\<lambda>kc. fst kc = k) m = []" by (auto simp: filter_empty_conv)
    then show ?thesis using True a by simp
  next
    case False
    then show ?thesis using Cons a by simp
  qed
qed

lemma keys_map_set:
  "map fst (map_set m k v) = (if k \<in> set (map fst m) then map fst m else map fst m @ [k])"
  by (induction m) (force split: if_splits)+

lemma distinct_map_set: "distinct (map fst m) \<Longrightarrow> distinct (map fst (map_set m k v))"
  by (simp add: keys_map_set)

lemma on_message_registers:
  "jwt_verify t secret now = Some d \<Longrightarrow>
   on_message w secret now conn (auth_message t) = w\<lparr>clients := map_set (clients w) (cl_userId d) conn\<rparr>"
  by (simp add: on_message_def auth_message_def)

lemma broadcastNotification_sent:
  "sent (broadcastNotification w u p) =
     sent w @ (case map_get (clients w) (Some u) of
                 None \<Rightarrow> []
               | Some c \<Rightarrow> if readyState w c = OPEN then [(c, notification_frame p)] else [])"
  by (simp add: broadcastNotification_def split: option.splits)

text \<open>
  C7. Two connections register one after the other for the same user (each with a
  token that verifies to that user's id): the registry then maps the user to the
  second connection only, the first is not closed (no ready state changes) and nothing
  is sent by registering; \<^verbatim>\<open>broadcastNotification\<close> sends one frame to the second
  connection if it is open and none to the first. For a user with no registered
  connection, or a registered one that is not open, it sends nothing and changes nothing.
\<close>

theorem newest_connection_only:
  "(jwt_verify t1 secret now1 = Some d1 \<and> cl_userId d1 = Some u \<and>
    jwt_verify t2 secret now2 = Some d2 \<and> cl_userId d2 = Some u \<and> c1 \<noteq> c2 \<longrightarrow>
      (let w1 = on_message w secret now1 c1 (auth_message t1);
           w2 = on_message w1 secret now2 c2 (auth_message t2)
       in map_get (clients w1) (Some u) = Some c1 \<and>
          map_get (clients w2) (Some u) = Some c2 \<and>
          (distinct (map fst (clients w)) \<longrightarrow>
             filter (\<lambda>kc. fst kc = Some u) (clients w2) = [(Some u, c2)]) \<and>
          readyState w2 = readyState w \<and>
          sent w2 = sent w \<and>
          sent (broadcastNotification w2 u p) =
            sent w2 @ (if readyState w2 c2 = OPEN then [(c2, notification_frame p)] else []) \<and>
          (c1, notification_frame p) \<notin> set (sent (broadcastNotification w2 u p)) - set (sent w))) \<and>
   ((case map_get (clients w) (Some u) of None \<Rightarrow> True | Some c \<Rightarrow> readyState w c \<noteq> OPEN) \<longrightarrow>
      broadcastNotification w u p = w)"
proof (intro conjI impI)
  assume a: "jwt_verify t1 secret now1 = Some d1 \<and> cl_userId d1 = Some u \<and>
    jwt_verify t2 secret now2 = Some d2 \<and> cl_userId d2 = Some u \<and> c1 \<noteq> c2"
  define w1 where "w1 = on_message w secret now1 c1 (auth_message t1)"
  define w2 where "w2 = on_message w1 secret now2 c2 (auth_message t2)"
  have e1: "w1 = w\<lparr>clients := map_set (clients w) (Some u) c1\<rparr>"
    unfolding w1_def using a on_message_registers[of t1 secret now1 d1 w c1] by simp
  have e2: "w2 = w1\<lparr>clients := map_set (clients w1) (Some u) c2\<rparr>"
    unfolding w2_def using a on_message_registers[of t2 secret now2 d2 w1 c2] by simp
  have g1: "map_get (clients w1) (Some u) = Some c1" by (simp add: e1 map_get_map_set_same)
  have g2: "map_get (clients w2) (Some u) = Some c2" by (simp add: e2 map_get_map_set_same)
  have d1: "distinct (map fst (clients w)) \<Longrightarrow> distinct (map fst (clients w1))"
    by (simp add: e1 distinct_map_set)
  have f: "distinct (map fst (clients w)) \<longrightarrow>
             filter (\<lambda>kc. fst kc = Some u) (clients w2) = [(Some u, c2)]"
    using d1 by (simp add: e2 filter_map_set)
  have s: "sent (broadcastNotification w2 u p) =
            sent w2 @ (if readyState w2 c2 = OPEN then [(c2, notification_frame p)] else [])"
    by (simp add: broadcastNotification_sent g2)
  have sw: "sent w2 = sent w" by (simp add: e2 e1)
  have n: "(c1, notification_frame p) \<notin> set (sent (broadcastNotification w2 u p)) - set (sent w)"
    using a by (simp add: s sw)
  show "let w1 = on_message w secret now1 c1 (auth_message t1);
           w2 = on_message w1 secret now2 c2 (auth_message t2)
       in map_get (clients w1) (Some u) = Some c1 \<and>
          map_get (clients w2) (Some u) = Some c2 \<and>
          (distinct (map fst (clients w)) \<longrightarrow>
             filter (\<lambda>kc. fst kc = Some u) (clients w2) = [(Some u, c2)]) \<and>
          readyState w2 = readyState w \<and>
          sent w2 = sent w \<and>
          sent (broadcastNotification w2 u p) =
            sent w2 @ (if readyState w2 c2 = OPEN then [(c2, notification_frame p)] else []) \<and>
          (c1, notification_frame p) \<notin> set (sent (broadcastNotification w2 u p)) - set (sent w)"
    unfolding Let_def w1_def[symmetric] w2_def[symmetric]
    using g1 g2 f s n by (simp add: e2 e1)
next
  assume "case map_get (clients w) (Some u) of None \<Rightarrow> True | Some c \<Rightarrow> readyState w c \<noteq> OPEN"
  then show "broadcastNotification w u p = w"
    by (simp add: broadcastNotification_def split: option.splits)
qed

theorem newest_connection_only_witness:
  "jwt_verify (session_token ''u1'' ''k'' 0) ''k'' 5 = Some \<lparr>cl_userId = Some ''u1'', cl_email = None\<rparr> \<and>
   (1::nat) \<noteq> 2 \<and>
   map_get (clients (on_message (on_message idle_sockets ''k'' 5 1 (auth_message (session_token ''u1'' ''k'' 0)))
        ''k'' 5 2 (auth_message (session_token ''u1'' ''k'' 0)))) (Some ''u1'') = Some 2 \<and>
   broadcastNotification idle_sockets ''u1'' JNull = idle_sockets"
proof -
  have v: "jwt_verify (session_token ''u1'' ''k'' 0) ''k'' 5 = Some \<lparr>cl_userId = Some ''u1'', cl_email = None\<rparr>"
    by (simp add: jwt_verify_def session_token_def jwt_sign_def)
  have i: "case map_get (clients idle_sockets) (Some ''u1'') of None \<Rightarrow> True
           | Some c \<Rightarrow> readyState idle_sockets c \<noteq> OPEN"
    by (simp add: idle_sockets_def map_get_def)
  have ne: "(1::nat) \<noteq> 2" by simp
  show ?thesis
    using newest_connection_only[of "session_token ''u1'' ''k'' 0" "''k''" 5
        "\<lparr>cl_userId = Some ''u1'', cl_email = None\<rparr>" "''u1''" "session_token ''u1'' ''k'' 0" 5
        "\<lparr>cl_userId = Some ''u1'', cl_email = None\<rparr>" 1 2 idle_sockets JNull] v i ne
    by (simp add: Let_def)
qed

section \<open>Login\<close>



text \<open>The login of the flow without verification lets the unverified user in.\<close>

lemma login_unverified_variant:
  "post_auth_login_unverified has_at (\<lambda>b. []) plain_compare campus ''k'' 10
     \<lparr>lb_email = Some ''bob@srec.ac.in'', lb_password = Some ''2''\<rparr> =
     Reply 200 (without_password bob, session_token ''u2'' ''k'' 10)"
  by (simp add: post_auth_login_unverified_def loginSchema_parse_def getUserByEmail_def campus_def
      map_values_def bob_def alice_def has_at_def plain_compare_def)

section \<open>Credential classes\<close>

text \<open>
  The bearer middleware answers a verification credential with 401 or 403, and the
  verify route answers a session credential with 400 and leaves the store as it is.
\<close>

lemma authenticateToken_verification_token:
  "authenticateToken st secret now (Some (verification_token e k t0)) =
     (if k = secret \<and> now < t0 + 24 * 3600 then Inl (401, ''Invalid token'')
      else Inl (403, ''Invalid token''))"
  by (simp add: authenticateToken_def verification_token_def jwt_sign_def jwt_verify_def)

lemma get_auth_verify_session_token:
  "get_auth_verify st secret now (Some (session_token i k t0)) =
     (st, if k = secret \<and> now < t0 + 7 * 24 * 3600 then Fail 400 ''Invalid token''
          else Fail 400 ''Invalid or expired token'')"
  by (simp add: get_auth_verify_def session_token_def jwt_sign_def jwt_verify_def)

text \<open>
  C3 fails on the live-connection handler: an auth frame with a verification credential
  that is signed with the server's secret and not expired is not rejected. The
  connection is stored in the registry under the key \<^verbatim>\<open>undefined\<close> and stays open,
  while a token signed with another secret closes the connection.
\<close>

theorem on_message_verification_token:
  "on_message w ''k'' 10 conn (auth_message (verification_token ''a@srec.ac.in'' ''k'' 0)) =
     w\<lparr>clients := map_set (clients w) None conn\<rparr> \<and>
   map_get (clients (on_message idle_sockets ''k'' 10 7
       (auth_message (verification_token ''a@srec.ac.in'' ''k'' 0)))) None = Some 7 \<and>
   readyState (on_message idle_sockets ''k'' 10 7
       (auth_message (verification_token ''a@srec.ac.in'' ''k'' 0))) 7 = OPEN \<and>
   on_message w ''k'' 10 conn (auth_message (Signed \<lparr>cl_userId = Some ''u1'', cl_email = None\<rparr> ''other'' 99)) =
     ws_close w conn"
  by (simp add: on_message_def auth_message_def verification_token_def jwt_sign_def
      jwt_verify_def idle_sockets_def map_get_def)

section \<open>Creating an event\<close>

text \<open>
  C4 as the spec states it fails: the frame pushed to the creator carries a title and a
  message only, not the notification the store returned.
\<close>

theorem push_is_not_persisted_record:
  "map_get (notifications (w_store (fst (post_events alice_online alice (Inr talk) ''e2'' ''n2'' 50)))) ''n2''
     = Some \<lparr>n_id = ''n2'', n_userId = Some ''u1'', n_title = ''New Event Created'',
             n_message = ''Talk has been scheduled'', n_type = ''event'', n_read = False,
             n_eventId = Some ''e2'', n_createdAt = 50\<rparr> \<and>
   sent (w_ws (fst (post_events alice_online alice (Inr talk) ''e2'' ''n2'' 50))) =
     [(7, JObj [(''type'', JStr ''notification''),
                (''data'', JObj [(''title'', JStr ''New Event Created''),
                                 (''message'', JStr ''Talk has been scheduled'')])])] \<and>
   sent (w_ws (fst (post_events alice_online alice (Inr talk) ''e2'' ''n2'' 50))) \<noteq>
     [(7, notification_frame (notification_json
            \<lparr>n_id = ''n2'', n_userId = Some ''u1'', n_title = ''New Event Created'',
             n_message = ''Talk has been scheduled'', n_type = ''event'', n_read = False,
             n_eventId = Some ''e2'', n_createdAt = 50\<rparr>))]"
  by (simp add: post_events_def alice_online_def alice_def talk_def createEvent_def
      createNotification_def broadcastNotification_def campus_def map_get_def or_null_def
      notification_frame_def notification_json_def json_opt_def Let_def)

text \<open>
  C4, amended. For an organizer or a faculty member and a body that parses, the handler
  calls \<^verbatim>\<open>createEvent\<close>, then \<^verbatim>\<open>createNotification\<close>, then \<^verbatim>\<open>broadcastNotification\<close>,
  in that order; the notification is in the store under its identifier, unread, of type
  event, for the new event, with the time of creation; the frame pushed, if the
  creator has an open registered connection, is of type notification with the title and
  the message of that notification as data; and the store after the handler is the same
  whatever the state of the connections. Another role is answered with 403 and nothing
  is called.
\<close>

theorem post_events_persists_then_pushes:
  "(u_role req_user \<in> {''Organizer'', ''Faculty''} \<longrightarrow>
     (\<exists>ev n.
        snd (snd (post_events w req_user (Inr ie) eid nid now)) =
          [Store_createEvent ev, Store_createNotification n,
           Broadcast (u_id req_user) (pushed_data n)] \<and>
        fst (snd (post_events w req_user (Inr ie) eid nid now)) = Reply 201 ev \<and>
        e_id ev = eid \<and> e_attendees ev = Some [] \<and> e_interested ev = Some [] \<and>
        n_id n = nid \<and> n_userId n = or_null (Some (u_id req_user)) \<and>
        n_title n = ''New Event Created'' \<and> n_message n = e_title ev @ '' has been scheduled'' \<and>
        n_type n = ''event'' \<and> \<not> n_read n \<and> n_eventId n = or_null (Some eid) \<and>
        n_createdAt n = now \<and>
        map_get (notifications (w_store (fst (post_events w req_user (Inr ie) eid nid now)))) nid
          = Some n \<and>
        sent (w_ws (fst (post_events w req_user (Inr ie) eid nid now))) =
          sent (w_ws w) @
            (case map_get (clients (w_ws w)) (Some (u_id req_user)) of
               None \<Rightarrow> []
             | Some c \<Rightarrow>
                 if readyState (w_ws w) c = OPEN then [(c, notification_frame (pushed_data n))]
                 else []) \<and>
        (\<forall>ws. w_store (fst (post_events (w\<lparr>w_ws := ws\<rparr>) req_user (Inr ie) eid nid now)) =
              w_store (fst (post_events w req_user (Inr ie) eid nid now))))) \<and>
   (u_role req_user \<notin> {''Organizer'', ''Faculty''} \<longrightarrow>
      post_events w req_user body eid nid now = (w, Fail 403 ''Not authorized to create events'', []))"
proof (intro conjI impI)
  assume r: "u_role req_user \<in> {''Organizer'', ''Faculty''}"
  define ev where "ev = snd (createEvent (w_store w) eid now
      (ie\<lparr>ie_organizerId := Some (u_id req_user), ie_organizerName := u_name req_user\<rparr>))"
  define st1 where "st1 = fst (createEvent (w_store w) eid now
      (ie\<lparr>ie_organizerId := Some (u_id req_user), ie_organizerName := u_name req_user\<rparr>))"
  define n where "n = snd (createNotification st1 nid now
      \<lparr>in_userId = Some (u_id req_user), in_title = ''New Event Created'',
       in_message = e_title ev @ '' has been scheduled'', in_type = ''event'',
       in_eventId = Some (e_id ev)\<rparr>)"
  define st2 where "st2 = fst (createNotification st1 nid now
      \<lparr>in_userId = Some (u_id req_user), in_title = ''New Event Created'',
       in_message = e_title ev @ '' has been scheduled'', in_type = ''event'',
       in_eventId = Some (e_id ev)\<rparr>)"
  have pe: "\<And>ws. post_events (w\<lparr>w_ws := ws\<rparr>) req_user (Inr ie) eid nid now =
      (\<lparr>w_store = st2, w_ws = broadcastNotification ws (u_id req_user) (pushed_data n)\<rparr>,
       Reply 201 ev,
       [Store_createEvent ev, Store_createNotification n, Broadcast (u_id req_user) (pushed_data n)])"
    using r
    by (simp add: post_events_def ev_def st1_def n_def st2_def Let_def split_beta pushed_data_def
        createNotification_def)
  have pe0: "post_events w req_user (Inr ie) eid nid now =
      (\<lparr>w_store = st2, w_ws = broadcastNotification (w_ws w) (u_id req_user) (pushed_data n)\<rparr>,
       Reply 201 ev,
       [Store_createEvent ev, Store_createNotification n, Broadcast (u_id req_user) (pushed_data n)])"
    using pe[of "w_ws w"] by simp
  have evf: "e_id ev = eid" "e_attendees ev = Some []" "e_interested ev = Some []"
    by (simp_all add: ev_def createEvent_def Let_def)
  have nf: "n_id n = nid" "n_userId n = or_null (Some (u_id req_user))"
    "n_title n = ''New Event Created''" "n_message n = e_title ev @ '' has been scheduled''"
    "n_type n = ''event''" "\<not> n_read n" "n_eventId n = or_null (Some eid)" "n_createdAt n = now"
    by (simp_all add: n_def createNotification_def Let_def evf)
  have stored: "map_get (notifications st2) nid = Some n"
    by (simp add: st2_def n_def createNotification_def Let_def map_get_map_set_same)
  show "\<exists>ev n.
        snd (snd (post_events w req_user (Inr ie) eid nid now)) =
          [Store_createEvent ev, Store_createNotification n,
           Broadcast (u_id req_user) (pushed_data n)] \<and>
        fst (snd (post_events w req_user (Inr ie) eid nid now)) = Reply 201 ev \<and>
        e_id ev = eid \<and> e_attendees ev = Some [] \<and> e_interested ev = Some [] \<and>
        n_id n = nid \<and> n_userId n = or_null (Some (u_id req_user)) \<and>
        n_title n = ''New Event Created'' \<and> n_message n = e_title ev @ '' has been scheduled'' \<and>
        n_type n = ''event'' \<and> \<not> n_read n \<and> n_eventId n = or_null (Some eid) \<and>
        n_createdAt n = now \<and>
        map_get (notifications (w_store (fst (post_events w req_user (Inr ie) eid nid now)))) nid
          = Some n \<and>
        sent (w_ws (fst (post_events w req_user (Inr ie) eid nid now))) =
          sent (w_ws w) @
            (case map_get (clients (w_ws w)) (Some (u_id req_user)) of
               None \<Rightarrow> []
             | Some c \<Rightarrow>
                 if readyState (w_ws w) c = OPEN then [(c, notification_frame (pushed_data n))]
                 else []) \<and>
        (\<forall>ws. w_store (fst (post_events (w\<lparr>w_ws := ws\<rparr>) req_user (Inr ie) eid nid now)) =
              w_store (fst (post_events w req_user (Inr ie) eid nid now)))"
    apply (rule exI[of _ ev], rule exI[of _ n])
    using evf nf stored by (simp add: pe pe0 broadcastNotification_sent)
next
  assume "u_role req_user \<notin> {''Organizer'', ''Faculty''}"
  then show "post_events w req_user body eid nid now =
      (w, Fail 403 ''Not authorized to create events'', [])"
    by (simp add: post_events_def)
qed

theorem post_events_persists_then_pushes_witness:
  "u_role alice \<in> {''Organizer'', ''Faculty''} \<and>
   (\<exists>ev n. snd (snd (post_events alice_online alice (Inr talk) ''e2'' ''n2'' 50)) =
          [Store_createEvent ev, Store_createNotification n, Broadcast (u_id alice) (pushed_data n)] \<and>
      map_get (notifications (w_store (fst (post_events alice_online alice (Inr talk) ''e2'' ''n2'' 50)))) ''n2''
          = Some n) \<and>
   u_role bob \<notin> {''Organizer'', ''Faculty''} \<and>
   post_events alice_online bob (Inr talk) ''e2'' ''n2'' 50 =
     (alice_online, Fail 403 ''Not authorized to create events'', [])"
proof -
  have a: "u_role alice \<in> {''Organizer'', ''Faculty''}" by (simp add: alice_def)
  have b: "u_role bob \<notin> {''Organizer'', ''Faculty''}" by (simp add: bob_def)
  from post_events_persists_then_pushes[of alice alice_online talk "''e2''" "''n2''" 50] a
  obtain ev n where
    "snd (snd (post_events alice_online alice (Inr talk) ''e2'' ''n2'' 50)) =
          [Store_createEvent ev, Store_createNotification n, Broadcast (u_id alice) (pushed_data n)]"
    "map_get (notifications (w_store (fst (post_events alice_online alice (Inr talk) ''e2'' ''n2'' 50)))) ''n2''
          = Some n"
    by blast
  moreover have "post_events alice_online bob (Inr talk) ''e2'' ''n2'' 50 =
     (alice_online, Fail 403 ''Not authorized to create events'', [])"
    using post_events_persists_then_pushes[of bob alice_online talk "''e2''" "''n2''" 50 "Inr talk"] b
    by blast
  ultimately show ?thesis using a b by blast
qed

section \<open>The membership mirror\<close>

lemma store_ok_cong: "users a = users b \<Longrightarrow> clubs a = clubs b \<Longrightarrow> store_ok a = store_ok b"
  by (simp add: store_ok_def users_keyed_def clubs_keyed_def mirror_def)

lemma createEvent_frame: "users (fst (createEvent st i now ie)) = users st \<and> clubs (fst (createEvent st i now ie)) = clubs st"
  by (simp add: createEvent_def Let_def)

lemma updateEvent_frame: "users (fst (updateEvent st i p)) = users st \<and> clubs (fst (updateEvent st i p)) = clubs st"
  by (simp add: updateEvent_def Let_def split: option.splits)

lemma deleteEvent_frame: "users (fst (deleteEvent st i)) = users st \<and> clubs (fst (deleteEvent st i)) = clubs st"
  by (simp add: deleteEvent_def)

lemma rsvpEvent_frame: "users (fst (rsvpEvent st u e ty)) = users st \<and> clubs (fst (rsvpEvent st u e ty)) = clubs st"
  by (simp add: rsvpEvent_def Let_def split: option.splits)

lemma unrsvpEvent_frame: "users (fst (unrsvpEvent st u e)) = users st \<and> clubs (fst (unrsvpEvent st u e)) = clubs st"
  by (simp add: unrsvpEvent_def Let_def split: option.splits)

lemma createNotification_frame:
  "users (fst (createNotification st i now ins)) = users st \<and> clubs (fst (createNotification st i now ins)) = clubs st"
  by (simp add: createNotification_def Let_def)

lemma markNotificationRead_frame:
  "users (fst (markNotificationRead st i)) = users st \<and> clubs (fst (markNotificationRead st i)) = clubs st"
  by (simp add: markNotificationRead_def split: option.splits)

lemma markAllNotificationsRead_frame:
  "users (fst (markAllNotificationsRead st u)) = users st \<and> clubs (fst (markAllNotificationsRead st u)) = clubs st"
  by (simp add: markAllNotificationsRead_def Let_def)

lemma as_array_Some: "x \<in> set (as_array a) \<Longrightarrow> a = Some (as_array a)"
  by (cases a) (simp_all add: as_array_def)

lemma replace_user_ok:
  assumes inv: "store_ok st"
    and gu: "map_get (users st) u = Some usr"
    and same: "u_id usr' = u_id usr" "u_clubs usr' = u_clubs usr"
  shows "store_ok (st\<lparr>users := map_set (users st) u usr'\<rparr>)"
proof -
  have uk: "users_keyed st" and ck: "clubs_keyed st"
    and du: "distinct (map fst (users st))" and dc: "distinct (map fst (clubs st))"
    and dn: "distinct (map c_name (map_values (clubs st)))"
    and mk: "\<forall>c \<in> set (map_values (clubs st)). set (as_array (c_members c)) \<subseteq> set (map fst (users st))"
    and cn: "\<forall>u \<in> set (map_values (users st)). set (as_array (u_clubs u)) \<subseteq> set (map c_name (map_values (clubs st)))"
    and mi: "mirror st"
    using inv by (simp_all add: store_ok_def)
  let ?st = "st\<lparr>users := map_set (users st) u usr'\<rparr>"
  have uin: "(u, usr) \<in> set (users st)" using gu by (simp add: map_get_in)
  have su: "set (map_set (users st) u usr') = insert (u, usr') (set (users st) - {(u, usr)})"
    by (rule set_map_set_present[OF du gu])
  have ku: "map fst (map_set (users st) u usr') = map fst (users st)"
    by (rule keys_map_set_present[OF gu])
  have uid: "u_id usr = u" using uk uin by (auto simp: users_keyed_def)
  have like: "\<And>x. x \<in> set (map_values (users ?st)) \<Longrightarrow>
      \<exists>y \<in> set (map_values (users st)). u_id x = u_id y \<and> u_clubs x = u_clubs y"
  proof -
    fix x assume "x \<in> set (map_values (users ?st))"
    then have "x = usr' \<or> x \<in> set (map_values (users st))"
      by (auto simp: su map_values_def image_iff)
    then show "\<exists>y \<in> set (map_values (users st)). u_id x = u_id y \<and> u_clubs x = u_clubs y"
    proof
      assume "x = usr'"
      moreover have "usr \<in> set (map_values (users st))" using uin by (force simp: map_values_def image_iff)
      ultimately show ?thesis using same by blast
    next
      assume "x \<in> set (map_values (users st))" then show ?thesis by blast
    qed
  qed
  have p1: "users_keyed ?st" using uk uid same by (auto simp: users_keyed_def su)
  have p2: "clubs_keyed ?st" using ck by (simp add: clubs_keyed_def)
  have p3: "distinct (map fst (users ?st))" using du ku by simp
  have p4: "distinct (map fst (clubs ?st))" using dc by simp
  have p5: "distinct (map c_name (map_values (clubs ?st)))" using dn by simp
  have p6: "\<forall>c \<in> set (map_values (clubs ?st)). set (as_array (c_members c)) \<subseteq> set (map fst (users ?st))"
    using mk ku by simp
  have p7: "\<forall>x \<in> set (map_values (users ?st)). set (as_array (u_clubs x)) \<subseteq> set (map c_name (map_values (clubs ?st)))"
  proof
    fix x assume "x \<in> set (map_values (users ?st))"
    then obtain y where "y \<in> set (map_values (users st))" "u_clubs x = u_clubs y" using like by blast
    then show "set (as_array (u_clubs x)) \<subseteq> set (map c_name (map_values (clubs ?st)))"
      using cn by simp
  qed
  have p8: "mirror ?st"
    unfolding mirror_def
  proof (intro ballI)
    fix x c assume x: "x \<in> set (map_values (users ?st))" and c: "c \<in> set (map_values (clubs ?st))"
    obtain y where y: "y \<in> set (map_values (users st))" "u_id x = u_id y" "u_clubs x = u_clubs y"
      using like[OF x] by blast
    have "c \<in> set (map_values (clubs st))" using c by simp
    then have "(c_name c \<in> set (as_array (u_clubs y))) = (u_id y \<in> set (as_array (c_members c)))"
      using mi y(1) by (simp add: mirror_def)
    then show "(c_name c \<in> set (as_array (u_clubs x))) = (u_id x \<in> set (as_array (c_members c)))"
      using y by simp
  qed
  show ?thesis unfolding store_ok_def using p1 p2 p3 p4 p5 p6 p7 p8 by blast
qed

lemma updateUser_ok:
  assumes "store_ok st" "upd_id p = None" "upd_clubs p = None"
  shows "store_ok (fst (updateUser st i p))"
proof (cases "map_get (users st) i")
  case None
  then show ?thesis using assms by (simp add: updateUser_def)
next
  case (Some usr)
  have "store_ok (st\<lparr>users := map_set (users st) i (spread_user usr p)\<rparr>)"
    by (rule replace_user_ok[OF assms(1) Some]) (simp_all add: spread_user_def override_def assms)
  then show ?thesis using Some by (simp add: updateUser_def Let_def)
qed

lemma createUser_ok:
  assumes inv: "store_ok st" and fresh: "i \<notin> set (map fst (users st))"
  shows "store_ok (fst (createUser st i now iu))"
proof -
  have uk: "users_keyed st" and ck: "clubs_keyed st"
    and du: "distinct (map fst (users st))" and dc: "distinct (map fst (clubs st))"
    and dn: "distinct (map c_name (map_values (clubs st)))"
    and mk: "\<forall>c \<in> set (map_values (clubs st)). set (as_array (c_members c)) \<subseteq> set (map fst (users st))"
    and cn: "\<forall>u \<in> set (map_values (users st)). set (as_array (u_clubs u)) \<subseteq> set (map c_name (map_values (clubs st)))"
    and mi: "mirror st"
    using inv by (simp_all add: store_ok_def)
  define usr where "usr = snd (createUser st i now iu)"
  have f: "u_id usr = i" "u_clubs usr = Some []" by (simp_all add: usr_def createUser_def Let_def)
  have e: "fst (createUser st i now iu) = st\<lparr>users := users st @ [(i, usr)]\<rparr>"
    using fresh by (simp add: usr_def createUser_def Let_def map_set_fresh)
  let ?st = "st\<lparr>users := users st @ [(i, usr)]\<rparr>"
  have p1: "users_keyed ?st" using uk f by (auto simp: users_keyed_def)
  have p2: "clubs_keyed ?st" using ck by (simp add: clubs_keyed_def)
  have p3: "distinct (map fst (users ?st))" using du fresh by simp
  have p4: "distinct (map fst (clubs ?st))" using dc by simp
  have p5: "distinct (map c_name (map_values (clubs ?st)))" using dn by simp
  have p6: "\<forall>c \<in> set (map_values (clubs ?st)). set (as_array (c_members c)) \<subseteq> set (map fst (users ?st))"
    using mk by auto
  have p7: "\<forall>x \<in> set (map_values (users ?st)). set (as_array (u_clubs x)) \<subseteq> set (map c_name (map_values (clubs ?st)))"
    using cn f by (auto simp: map_values_def as_array_def)
  have p8: "mirror ?st"
    unfolding mirror_def
  proof (intro ballI)
    fix x c assume x: "x \<in> set (map_values (users ?st))" and c: "c \<in> set (map_values (clubs ?st))"
    have c': "c \<in> set (map_values (clubs st))" using c by simp
    from x have "x = usr \<or> x \<in> set (map_values (users st))" by (auto simp: map_values_def)
    then show "(c_name c \<in> set (as_array (u_clubs x))) = (u_id x \<in> set (as_array (c_members c)))"
    proof
      assume xu: "x = usr"
      have "i \<notin> set (as_array (c_members c))" using mk c' fresh by blast
      then show ?thesis using xu f by (simp add: as_array_def)
    next
      assume "x \<in> set (map_values (users st))"
      then show ?thesis using mi c' by (simp add: mirror_def)
    qed
  qed
  show ?thesis unfolding e store_ok_def using p1 p2 p3 p4 p5 p6 p7 p8 by blast
qed

lemma createClub_ok:
  assumes inv: "store_ok st" and fresh: "i \<notin> set (map fst (clubs st))"
    and new: "ic_name ic \<notin> set (map c_name (map_values (clubs st)))"
  shows "store_ok (fst (createClub st i now ic))"
proof -
  have uk: "users_keyed st" and ck: "clubs_keyed st"
    and du: "distinct (map fst (users st))" and dc: "distinct (map fst (clubs st))"
    and dn: "distinct (map c_name (map_values (clubs st)))"
    and mk: "\<forall>c \<in> set (map_values (clubs st)). set (as_array (c_members c)) \<subseteq> set (map fst (users st))"
    and cn: "\<forall>u \<in> set (map_values (users st)). set (as_array (u_clubs u)) \<subseteq> set (map c_name (map_values (clubs st)))"
    and mi: "mirror st"
    using inv by (simp_all add: store_ok_def)
  define cl where "cl = snd (createClub st i now ic)"
  have f: "c_id cl = i" "c_members cl = Some []" "c_name cl = ic_name ic"
    by (simp_all add: cl_def createClub_def Let_def)
  have e: "fst (createClub st i now ic) = st\<lparr>clubs := clubs st @ [(i, cl)]\<rparr>"
    using fresh by (simp add: cl_def createClub_def Let_def map_set_fresh)
  let ?st = "st\<lparr>clubs := clubs st @ [(i, cl)]\<rparr>"
  have p1: "users_keyed ?st" using uk by (simp add: users_keyed_def)
  have p2: "clubs_keyed ?st" using ck f by (auto simp: clubs_keyed_def)
  have p3: "distinct (map fst (users ?st))" using du by simp
  have p4: "distinct (map fst (clubs ?st))" using dc fresh by simp
  have p5: "distinct (map c_name (map_values (clubs ?st)))"
    using dn new f by (simp add: map_values_def)
  have p6: "\<forall>c \<in> set (map_values (clubs ?st)). set (as_array (c_members c)) \<subseteq> set (map fst (users ?st))"
    using mk f by (auto simp: map_values_def as_array_def)
  have p7: "\<forall>x \<in> set (map_values (users ?st)). set (as_array (u_clubs x)) \<subseteq> set (map c_name (map_values (clubs ?st)))"
    using cn by (auto simp: map_values_def)
  have p8: "mirror ?st"
    unfolding mirror_def
  proof (intro ballI)
    fix x c assume x: "x \<in> set (map_values (users ?st))" and c: "c \<in> set (map_values (clubs ?st))"
    have x': "x \<in> set (map_values (users st))" using x by simp
    from c have "c = cl \<or> c \<in> set (map_values (clubs st))" by (auto simp: map_values_def)
    then show "(c_name c \<in> set (as_array (u_clubs x))) = (u_id x \<in> set (as_array (c_members c)))"
    proof
      assume cc: "c = cl"
      have "ic_name ic \<notin> set (as_array (u_clubs x))" using cn x' new by blast
      then show ?thesis using cc f by (simp add: as_array_def)
    next
      assume "c \<in> set (map_values (clubs st))"
      then show ?thesis using mi x' by (simp add: mirror_def)
    qed
  qed
  show ?thesis unfolding e store_ok_def using p1 p2 p3 p4 p5 p6 p7 p8 by blast
qed

lemma club_by_name_keyed:
  assumes inv: "store_ok st" and gc: "getClubByName st c = Some cl"
  shows "map_get (clubs st) (c_id cl) = Some cl \<and> c_name cl = c"
proof -
  obtain k where k: "(k, cl) \<in> set (clubs st)" "c_name cl = c"
    using find_in_values[OF gc[unfolded getClubByName_def]] by blast
  have "c_id cl = k" using inv k(1) by (auto simp: store_ok_def clubs_keyed_def)
  moreover have "distinct (map fst (clubs st))" using inv by (simp add: store_ok_def)
  ultimately show ?thesis using in_map_get k by fastforce
qed

lemma joinClub_ok:
  assumes inv: "store_ok st"
  shows "store_ok (fst (joinClub st u c))"
proof (cases "getUser st u")
  case None then show ?thesis using inv by (simp add: joinClub_def)
next
  case (Some usr)
  show ?thesis
  proof (cases "getClubByName st c")
    case None then show ?thesis using inv Some by (simp add: joinClub_def)
  next
    case gc: (Some cl)
    have gu: "map_get (users st) u = Some usr" using Some by (simp add: getUser_def)
    have kc: "map_get (clubs st) (c_id cl) = Some cl" and nm: "c_name cl = c"
      using club_by_name_keyed[OF inv gc] by simp_all
    define xs where "xs = (if c \<in> set (as_array (u_clubs usr)) then as_array (u_clubs usr)
                           else as_array (u_clubs usr) @ [c])"
    define ms where "ms = (if u \<in> set (as_array (c_members cl)) then as_array (c_members cl)
                           else as_array (c_members cl) @ [u])"
    have eu: "(if c \<in> set (as_array (u_clubs usr)) then users st
               else map_set (users st) u (usr\<lparr>u_clubs := Some (as_array (u_clubs usr) @ [c])\<rparr>))
              = map_set (users st) u (usr\<lparr>u_clubs := Some xs\<rparr>)"
    proof (cases "c \<in> set (as_array (u_clubs usr))")
      case True
      then have "usr\<lparr>u_clubs := Some xs\<rparr> = usr" using as_array_Some[OF True] by (simp add: xs_def)
      then show ?thesis using True map_set_same_value[OF gu] by simp
    next
      case False then show ?thesis by (simp add: xs_def)
    qed
    have ec: "(if u \<in> set (as_array (c_members cl)) then clubs st
               else map_set (clubs st) (c_id cl) (cl\<lparr>c_members := Some (as_array (c_members cl) @ [u])\<rparr>))
              = map_set (clubs st) (c_id cl) (cl\<lparr>c_members := Some ms\<rparr>)"
    proof (cases "u \<in> set (as_array (c_members cl))")
      case True
      then have "cl\<lparr>c_members := Some ms\<rparr> = cl" using as_array_Some[OF True] by (simp add: ms_def)
      then show ?thesis using True map_set_same_value[OF kc] by simp
    next
      case False then show ?thesis by (simp add: ms_def)
    qed
    have "store_ok (st\<lparr>users := map_set (users st) u (usr\<lparr>u_clubs := Some xs\<rparr>),
                       clubs := map_set (clubs st) (c_id cl) (cl\<lparr>c_members := Some ms\<rparr>)\<rparr>)"
      by (rule relate_ok[OF inv gu kc]) (auto simp: xs_def ms_def nm)
    then show ?thesis
      unfolding joinClub_state[OF Some gc] eu ec .
  qed
qed

lemma leaveClub_ok:
  assumes inv: "store_ok st"
  shows "store_ok (fst (leaveClub st u c))"
proof (cases "getUser st u")
  case None then show ?thesis using inv by (simp add: leaveClub_def)
next
  case (Some usr)
  show ?thesis
  proof (cases "getClubByName st c")
    case None then show ?thesis using inv Some by (simp add: leaveClub_def)
  next
    case gc: (Some cl)
    have gu: "map_get (users st) u = Some usr" using Some by (simp add: getUser_def)
    have kc: "map_get (clubs st) (c_id cl) = Some cl" and nm: "c_name cl = c"
      using club_by_name_keyed[OF inv gc] by simp_all
    show ?thesis
      unfolding leaveClub_state[OF Some gc]
      by (rule relate_ok[OF inv gu kc]) (auto simp: nm)
  qed
qed

lemma fold_map_set_fresh:
  "distinct (map fst kvs) \<Longrightarrow> set (map fst kvs) \<inter> set (map fst m) = {} \<Longrightarrow>
   fold (\<lambda>(i, d) m. map_set m i (f i d)) kvs m = m @ map (\<lambda>(i, d). (i, f i d)) kvs"
proof (induction kvs arbitrary: m)
  case Nil
  then show ?case by simp
next
  case (Cons a kvs)
  obtain i d where a: "a = (i, d)" by (cases a)
  have fr: "i \<notin> set (map fst m)" using Cons.prems a by auto
  have "fold (\<lambda>(i, d) m. map_set m i (f i d)) kvs (m @ [(i, f i d)])
        = (m @ [(i, f i d)]) @ map (\<lambda>(i, d). (i, f i d)) kvs"
    using Cons.prems a by (intro Cons.IH) auto
  then show ?case using a fr by (simp add: map_set_fresh)
qed

lemma distinct_map_take: "distinct (map f xs) \<Longrightarrow> distinct (map f (take n xs))"
  by (simp add: take_map[symmetric])

lemma new_MemStorage_ok:
  assumes "distinct ids"
  shows "store_ok (new_MemStorage ids now)"
proof -
  have d: "distinct (map fst (zip ids defaultClubs))"
    using assms by (simp add: map_fst_zip_take)
  have e: "initializeDefaultClubs ids now =
      map (\<lambda>(i, d). (i, default_club now i d)) (zip ids defaultClubs)"
    unfolding initializeDefaultClubs_def using fold_map_set_fresh[OF d, of "[]" "default_club now"] by simp
  have k: "map fst (initializeDefaultClubs ids now) = map fst (zip ids defaultClubs)"
    by (simp add: e case_prod_beta comp_def)
  have n: "map c_name (map_values (initializeDefaultClubs ids now)) = map (fst \<circ> snd) (zip ids defaultClubs)"
    by (simp add: e map_values_def case_prod_beta comp_def default_club_def)
  have "distinct (map fst defaultClubs)" by (simp add: defaultClubs_def)
  then have "distinct (map fst (map snd (zip ids defaultClubs)))"
    unfolding map_snd_zip_take by (rule distinct_map_take)
  then have dn: "distinct (map (fst \<circ> snd) (zip ids defaultClubs))" by simp
  have m: "\<forall>c \<in> set (map_values (initializeDefaultClubs ids now)). c_members c = Some []"
    by (auto simp: e map_values_def default_club_def)
  have ky: "\<forall>kc \<in> set (initializeDefaultClubs ids now). c_id (snd kc) = fst kc"
    by (auto simp: e default_club_def)
  show ?thesis
    unfolding store_ok_def new_MemStorage_def
    using d k n dn m ky
    by (simp add: users_keyed_def clubs_keyed_def mirror_def map_values_def as_array_def)
qed

lemma campus_clubs:
  "clubs campus =
     [(''c1'', default_club 0 ''c1'' (defaultClubs ! 0)), (''c2'', default_club 0 ''c2'' (defaultClubs ! 1)),
      (''c3'', default_club 0 ''c3'' (defaultClubs ! 2)), (''c4'', default_club 0 ''c4'' (defaultClubs ! 3)),
      (''c5'', default_club 0 ''c5'' (defaultClubs ! 4))]"
  by (simp add: campus_def initializeDefaultClubs_def defaultClubs_def)

lemma campus_ok: "store_ok campus"
  unfolding store_ok_def users_keyed_def clubs_keyed_def mirror_def campus_clubs
  by (simp add: campus_def map_values_def default_club_def defaultClubs_def alice_def bob_def
      as_array_def)

text \<open>
  C2 as the spec states it fails: \<^verbatim>\<open>updateUser\<close> with a \<^verbatim>\<open>clubs\<close> key writes the
  user's side alone.
\<close>

theorem updateUser_breaks_mirror:
  "mirror campus \<and>
   \<not> mirror (fst (updateUser campus ''u2'' (only_clubs [''Coding Club''])))"
proof -
  have m: "mirror campus" using campus_ok by (simp add: store_ok_def)
  have u: "fst (updateUser campus ''u2'' (only_clubs [''Coding Club''])) =
      campus\<lparr>users := [(''u1'', alice), (''u2'', bob\<lparr>u_clubs := Some [''Coding Club'']\<rparr>)]\<rparr>"
    by (simp add: updateUser_def campus_def map_get_def spread_only_clubs Let_def)
  have "\<not> mirror (campus\<lparr>users := [(''u1'', alice), (''u2'', bob\<lparr>u_clubs := Some [''Coding Club'']\<rparr>)]\<rparr>)"
    unfolding mirror_def
    by (simp add: campus_clubs map_values_def default_club_def defaultClubs_def alice_def bob_def
      as_array_def)
  then show ?thesis using m u by simp
qed

text \<open>
  C2, amended. The mirror holds in the store \<^verbatim>\<open>new MemStorage()\<close> builds, and with
  the rest of \<open>store_ok\<close> it is kept by every writing operation of the store, for
  \<^verbatim>\<open>createUser\<close> and \<^verbatim>\<open>createClub\<close> with an unused identifier, \<^verbatim>\<open>createClub\<close>
  with a new name, and \<^verbatim>\<open>updateUser\<close> with an object that has no \<^verbatim>\<open>id\<close> and no
  \<^verbatim>\<open>clubs\<close> key.
\<close>

theorem mirror_preserved:
  "(distinct ids \<longrightarrow> store_ok (new_MemStorage ids now)) \<and> mirror (new_MemStorage ids now) \<and>
   (store_ok st \<longrightarrow> mirror st) \<and>
   (store_ok st \<and> op_ok st op \<longrightarrow> store_ok (exec_op st op) \<and> mirror (exec_op st op))"
proof (intro conjI impI)
  assume "distinct ids" then show "store_ok (new_MemStorage ids now)" by (rule new_MemStorage_ok)
next
  show "mirror (new_MemStorage ids now)" by (simp add: mirror_def new_MemStorage_def map_values_def)
next
  assume "store_ok st" then show "mirror st" by (simp add: store_ok_def)
next
  assume a: "store_ok st \<and> op_ok st op"
  then have inv: "store_ok st" and ok: "op_ok st op" by simp_all
  show s: "store_ok (exec_op st op)"
  proof (cases op)
    case (CreateUser i now iu) then show ?thesis using inv ok by (simp add: createUser_ok)
  next
    case (UpdateUser i p) then show ?thesis using inv ok by (simp add: updateUser_ok)
  next
    case (CreateEvent i now ie)
    then show ?thesis using inv store_ok_cong[of "fst (createEvent st i now ie)" st] createEvent_frame by simp
  next
    case (UpdateEvent i p)
    then show ?thesis using inv store_ok_cong[of "fst (updateEvent st i p)" st] updateEvent_frame by simp
  next
    case (DeleteEvent i)
    then show ?thesis using inv store_ok_cong[of "fst (deleteEvent st i)" st] deleteEvent_frame by simp
  next
    case (CreateClub i now ic) then show ?thesis using inv ok by (simp add: createClub_ok)
  next
    case (JoinClub u c) then show ?thesis using inv by (simp add: joinClub_ok)
  next
    case (LeaveClub u c) then show ?thesis using inv by (simp add: leaveClub_ok)
  next
    case (RsvpEvent u e ty)
    then show ?thesis using inv store_ok_cong[of "fst (rsvpEvent st u e ty)" st] rsvpEvent_frame by simp
  next
    case (UnrsvpEvent u e)
    then show ?thesis using inv store_ok_cong[of "fst (unrsvpEvent st u e)" st] unrsvpEvent_frame by simp
  next
    case (CreateNotification i now ins)
    then show ?thesis using inv store_ok_cong[of "fst (createNotification st i now ins)" st] createNotification_frame by simp
  next
    case (MarkNotificationRead i)
    then show ?thesis using inv store_ok_cong[of "fst (markNotificationRead st i)" st] markNotificationRead_frame by simp
  next
    case (MarkAllNotificationsRead u)
    then show ?thesis using inv store_ok_cong[of "fst (markAllNotificationsRead st u)" st] markAllNotificationsRead_frame by simp
  qed
  show "mirror (exec_op st op)" using s by (simp add: store_ok_def)
qed

theorem mirror_preserved_witness:
  "distinct [''c1'', ''c2'', ''c3'', ''c4'', ''c5''] \<and> store_ok campus \<and>
   op_ok campus (JoinClub ''u2'' ''Coding Club'') \<and>
   store_ok (new_MemStorage [''c1'', ''c2'', ''c3'', ''c4'', ''c5''] 0) \<and>
   mirror (exec_op campus (JoinClub ''u2'' ''Coding Club'')) \<and>
   op_ok campus (UpdateUser ''u2'' (no_updates\<lparr>upd_name := Some ''Robert''\<rparr>)) \<and>
   mirror (exec_op campus (UpdateUser ''u2'' (no_updates\<lparr>upd_name := Some ''Robert''\<rparr>)))"
proof -
  have d: "distinct [''c1'', ''c2'', ''c3'', ''c4'', ''c5'']" by simp
  have o: "op_ok campus (JoinClub ''u2'' ''Coding Club'')" by simp
  have o2: "op_ok campus (UpdateUser ''u2'' (no_updates\<lparr>upd_name := Some ''Robert''\<rparr>))"
    by (simp add: no_updates_def)
  show ?thesis
    using mirror_preserved[of "[''c1'', ''c2'', ''c3'', ''c4'', ''c5'']" 0 campus "JoinClub ''u2'' ''Coding Club''"]
      mirror_preserved[of "[''c1'', ''c2'', ''c3'', ''c4'', ''c5'']" 0 campus
         "UpdateUser ''u2'' (no_updates\<lparr>upd_name := Some ''Robert''\<rparr>)"]
      d o o2 campus_ok
    by blast
qed

end
